theory Spec2Isabelle
  imports Main "HOL-Library.Char_ord" "HOL-Library.List_Lexorder" "HOL-Library.AList"
begin

section \<open>Errors and control flow\<close>

text \<open>
  Go error values. \<open>buildError\<close>, \<open>cloneError\<close> and \<open>errList\<close> are the three error types
  the program declares; \<open>ErrCycle\<close> is the error of the topological sort; \<open>ErrExternal\<close>
  stands for an error value handed over by a collaborator (operating system, metadata
  parser, build engine), identified by its message.
\<close>

datatype error =
    ErrCycle
  | ErrExternal string
  | buildError string error
  | cloneError string error
  | errList "error list"

text \<open>
  A Go function either returns, panics with a value, or ends the process through
  \<open>os.Exit\<close>.
\<close>

datatype 'a outcome = Returns 'a | Panics error | Exits nat

text \<open>The \<open>Error()\<close> methods of the three declared error types.\<close>

fun Error :: "error \<Rightarrow> string" where
  "Error ErrCycle = ''cycle detected''"
| "Error (ErrExternal msg) = msg"
| "Error (buildError repo err) = ''build for '' @ repo @ '' failed: '' @ Error err"
| "Error (cloneError repo err) = ''clone for '' @ repo @ '' failed: '' @ Error err"
| "Error (errList l) = concat (map (\<lambda>err. Error err @ [CHR 0x0A]) l)"

section \<open>Packaging metadata\<close>

text \<open>
  The structures of the metadata parser that the program reads: of a control file its
  source paragraph's build dependencies and its binary paragraphs; of a dependency, its
  relations, each an alternation of possibilities.
\<close>

record Possibility =
  Name :: string

record Relation =
  Possibilities :: "Possibility list"

record Depends =
  Relations :: "Relation list"

record SourceParagraph =
  BuildDepends :: Depends

record BinaryParagraph =
  Package :: string
  Values :: "string \<rightharpoonup> string"

record Control =
  Source :: SourceParagraph
  Binaries :: "BinaryParagraph list"

definition GetAllPossibilities :: "Depends \<Rightarrow> Possibility list" where
  "GetAllPossibilities d = concat (map Possibilities (Relations d))"

text \<open>
  The collaborators of the metadata index, taken as parameters: \<open>strings.TrimSpace\<close>,
  \<open>filepath.Join\<close>, \<open>ioutil.ReadDir\<close> (the entry names of a directory), \<open>os.Open\<close> (the
  content of a file), \<open>control.ParseControl\<close> and \<open>dependency.Parse\<close>.
\<close>

record env =
  TrimSpace :: "string \<Rightarrow> string"
  Join :: "string list \<Rightarrow> string"
  ReadDir :: "string \<Rightarrow> error + string list"
  Open :: "string \<Rightarrow> error + string"
  ParseControl :: "string \<Rightarrow> string \<Rightarrow> error + Control"
  Parse :: "string \<Rightarrow> error + Depends"

section \<open>The topological sort\<close>

text \<open>
  Modelled from the spec: the graph library \<open>github.com/danos/utils/tsort\<close> (\<open>New\<close>,
  \<open>AddVertex\<close>, \<open>AddEdge\<close>, \<open>Sort\<close>) is imported by the program and is not part of its
  sources. The spec's graph has unit names as vertices, each added at most once, and
  directed edges whose multiplicity is irrelevant.
\<close>

record Graph =
  vertices :: "string list"
  edges :: "(string \<times> string) list"

text \<open>Modelled from the spec: \<open>tsort.New\<close>, the graph without vertices and edges.\<close>

definition New :: Graph where
  "New = \<lparr>vertices = [], edges = []\<rparr>"

text \<open>Modelled from the spec: \<open>AddVertex\<close>; a vertex is added at most once.\<close>

definition AddVertex :: "string \<Rightarrow> Graph \<Rightarrow> Graph" where
  "AddVertex name g =
     (if name \<in> set (vertices g) then g else g\<lparr>vertices := vertices g @ [name]\<rparr>)"

text \<open>
  Modelled from the spec: \<open>AddEdge\<close>. The spec gives every edge's target a position in
  the order, so both ends of an edge are vertices; adding an edge twice changes nothing.
\<close>

definition AddEdge :: "string \<Rightarrow> string \<Rightarrow> Graph \<Rightarrow> Graph" where
  "AddEdge from to g =
     (let g1 = AddVertex to (AddVertex from g)
      in if (from, to) \<in> set (edges g1) then g1
         else g1\<lparr>edges := edges g1 @ [(from, to)]\<rparr>)"

text \<open>
  Modelled from the spec: the targets of a vertex's edges, and whether a vertex is ready
  to be placed, all its targets being placed.
\<close>

definition targets :: "(string \<times> string) list \<Rightarrow> string \<Rightarrow> string list" where
  "targets E v = map snd (filter (\<lambda>e. fst e = v) E)"

definition ready :: "(string \<times> string) list \<Rightarrow> string list \<Rightarrow> string \<Rightarrow> bool" where
  "ready E placed v = list_all (\<lambda>d. d \<in> set placed) (targets E v)"

text \<open>
  Modelled from the spec: the loop of \<open>Sort\<close>, Kahn's algorithm, one of the two the spec
  names. Among the vertices whose targets are all placed it takes the first by name (the
  spec's tie-break), and it reports a cycle when vertices remain and none is ready.
\<close>

function sort_loop :: "(string \<times> string) list \<Rightarrow> string list \<Rightarrow> string list
    \<Rightarrow> error + string list" where
  "sort_loop E rem placed =
     (if rem = [] then Inr placed
      else case find (ready E placed) rem of
             None \<Rightarrow> Inl ErrCycle
           | Some v \<Rightarrow> sort_loop E (remove1 v rem) (placed @ [v]))"
  by pat_completeness auto
termination
proof (relation "measure (\<lambda>(E, rem, placed). length rem)")
  show "wf (measure (\<lambda>(E, rem, placed). length rem))" by simp
next
  fix E :: "(string \<times> string) list" and rem placed :: "string list" and v
  assume "rem \<noteq> []" and f: "find (ready E placed) rem = Some v"
  from f have "v \<in> set rem"
    by (auto simp: find_Some_iff)
  then have "length (remove1 v rem) < length rem"
    by (simp add: length_remove1) (cases rem; simp)
  then show "((E, remove1 v rem, placed @ [v]), (E, rem, placed))
      \<in> measure (\<lambda>(E, rem, placed). length rem)"
    by simp
qed

text \<open>Modelled from the spec: \<open>Sort\<close>, the loop started on the vertices in name order.\<close>

definition Sort :: "Graph \<Rightarrow> error + string list" where
  "Sort g = sort_loop (edges g) (sort (vertices g)) []"

section \<open>The metadata index\<close>

text \<open>
  The program exists in two variants, which share most of their text: \<open>src/main.go\<close>
  (suffix \<open>_v1\<close> below) and the second \<open>main\<close> package of \<open>src/unnamed\<close> (suffix
  \<open>_v2\<close>). A function without suffix is the same in both.

  \<open>ctrlFiles\<close> is a Go map that the program ranges over; it is kept as an association
  list in insertion order, assigned to with \<open>AList.update\<close>.
\<close>

record repoMetaData =
  ctrlFiles :: "(string \<times> Control) list"
  pack2repo :: "string \<rightharpoonup> string"
  unparseable :: "string list"

text \<open>The body of the loop over \<open>ctrl.Binaries\<close>, in \<open>src/main.go\<close>.\<close>

definition indexBinary_v1 :: "env \<Rightarrow> string \<Rightarrow> (string \<rightharpoonup> string) \<Rightarrow> BinaryParagraph
    \<Rightarrow> (string \<rightharpoonup> string)" where
  "indexBinary_v1 env repo p2r bin =
     (let pkgName = TrimSpace env (Package bin) in p2r(pkgName \<mapsto> repo))"

text \<open>The same loop body in the second variant, which also indexes \<open>Provides\<close>.\<close>

definition indexBinary_v2 :: "env \<Rightarrow> string \<Rightarrow> (string \<rightharpoonup> string) \<Rightarrow> BinaryParagraph
    \<Rightarrow> (string \<rightharpoonup> string)" where
  "indexBinary_v2 env repo p2r bin =
     (let pkgName = TrimSpace env (Package bin);
          p2r1 = p2r(pkgName \<mapsto> repo)
      in case Values bin ''Provides'' of
           None \<Rightarrow> p2r1
         | Some providesStr \<Rightarrow>
             (case Parse env providesStr of
                Inl err \<Rightarrow> p2r1
              | Inr provides \<Rightarrow>
                  foldl (\<lambda>m poss. m(TrimSpace env (Name poss) \<mapsto> repo)) p2r1
                    (GetAllPossibilities provides)))"

text \<open>
  The body of the loop over the directory entries, with the loop over the binaries as
  its parameter \<open>indexBinary\<close>.
\<close>

definition enumerateRepo :: "(env \<Rightarrow> string \<Rightarrow> (string \<rightharpoonup> string) \<Rightarrow> BinaryParagraph
      \<Rightarrow> (string \<rightharpoonup> string))
    \<Rightarrow> env \<Rightarrow> string \<Rightarrow> repoMetaData \<Rightarrow> string \<Rightarrow> repoMetaData" where
  "enumerateRepo indexBinary env from out repo =
     (let path = Join env [from, repo, ''debian'', ''control'']
      in case Open env path of
           Inl err \<Rightarrow> out
         | Inr ctrlFile \<Rightarrow>
             (case ParseControl env ctrlFile path of
                Inl err \<Rightarrow> out\<lparr>unparseable := unparseable out @ [repo]\<rparr>
              | Inr ctrl \<Rightarrow>
                  out\<lparr>ctrlFiles := AList.update repo ctrl (ctrlFiles out),
                      pack2repo := foldl (indexBinary env repo) (pack2repo out)
                                     (Binaries ctrl)\<rparr>))"

definition enumerateBuildableRepos_with :: "(env \<Rightarrow> string \<Rightarrow> (string \<rightharpoonup> string)
      \<Rightarrow> BinaryParagraph \<Rightarrow> (string \<rightharpoonup> string))
    \<Rightarrow> env \<Rightarrow> string \<Rightarrow> repoMetaData outcome" where
  "enumerateBuildableRepos_with indexBinary env from =
     (let out = \<lparr>ctrlFiles = [], pack2repo = Map.empty, unparseable = []\<rparr>
      in case ReadDir env from of
           Inl err \<Rightarrow> Panics err
         | Inr repos \<Rightarrow> Returns (foldl (enumerateRepo indexBinary env from) out repos))"

definition enumerateBuildableRepos_v1 :: "env \<Rightarrow> string \<Rightarrow> repoMetaData outcome" where
  "enumerateBuildableRepos_v1 = enumerateBuildableRepos_with indexBinary_v1"

definition enumerateBuildableRepos_v2 :: "env \<Rightarrow> string \<Rightarrow> repoMetaData outcome" where
  "enumerateBuildableRepos_v2 = enumerateBuildableRepos_with indexBinary_v2"

section \<open>The dependency graph and the build order\<close>

text \<open>The loops over the relations of \<open>Build-Depends\<close> and over their possibilities.\<close>

definition addPossibility :: "env \<Rightarrow> repoMetaData \<Rightarrow> string \<Rightarrow> Graph \<Rightarrow> Possibility
    \<Rightarrow> Graph" where
  "addPossibility env repos repo depGraph pos =
     (let name = TrimSpace env (Name pos)
      in case pack2repo repos name of
           None \<Rightarrow> depGraph
         | Some drepo \<Rightarrow> AddEdge repo drepo depGraph)"

definition addRelations :: "env \<Rightarrow> repoMetaData \<Rightarrow> string \<Rightarrow> Control \<Rightarrow> Graph \<Rightarrow> Graph" where
  "addRelations env repos repo ctrl depGraph =
     foldl (\<lambda>g rel. foldl (addPossibility env repos repo) g (Possibilities rel))
       depGraph (Relations (BuildDepends (Source ctrl)))"

text \<open>The implicit edges of \<open>src/main.go\<close>: every unit gets an edge to \<open>base-files\<close>.\<close>

definition addBase_v1 :: "string \<Rightarrow> Graph \<Rightarrow> Graph" where
  "addBase_v1 repo depGraph = AddEdge repo ''base-files'' depGraph"

text \<open>The implicit edges of the second variant, behind its two guards.\<close>

definition addBase_v2 :: "string \<Rightarrow> Graph \<Rightarrow> Graph" where
  "addBase_v2 repo depGraph =
     (if repo \<noteq> ''base-files'' \<and> repo \<noteq> ''lintian-profile-vyatta'' then
        (let g1 = AddEdge repo ''base-files'' depGraph;
             g2 = AddEdge repo ''lintian-profile-vyatta'' g1
         in if repo \<noteq> ''linux-vyatta'' then AddEdge repo ''linux-vyatta'' g2 else g2)
      else depGraph)"

text \<open>
  The body of the loop over \<open>repos.ctrlFiles\<close>, and the graph the loop leaves, with the
  implicit edges as the parameter \<open>addBase\<close>.
\<close>

definition addRepo :: "(string \<Rightarrow> Graph \<Rightarrow> Graph) \<Rightarrow> env \<Rightarrow> repoMetaData \<Rightarrow> Graph
    \<Rightarrow> string \<times> Control \<Rightarrow> Graph" where
  "addRepo addBase env repos depGraph rc =
     (case rc of (repo, ctrl) \<Rightarrow>
        addRelations env repos repo ctrl (addBase repo (AddVertex repo depGraph)))"

definition depGraph_with :: "(string \<Rightarrow> Graph \<Rightarrow> Graph) \<Rightarrow> env \<Rightarrow> repoMetaData \<Rightarrow> Graph" where
  "depGraph_with addBase env repos = foldl (addRepo addBase env repos) New (ctrlFiles repos)"

definition determineBuildOrder_with :: "(string \<Rightarrow> Graph \<Rightarrow> Graph) \<Rightarrow> env \<Rightarrow> repoMetaData
    \<Rightarrow> string list outcome" where
  "determineBuildOrder_with addBase env repos =
     (case Sort (depGraph_with addBase env repos) of
        Inl err \<Rightarrow> Panics err
      | Inr sorted_repos \<Rightarrow> Returns (sorted_repos @ unparseable repos))"

definition determineBuildOrder_v1 :: "env \<Rightarrow> repoMetaData \<Rightarrow> string list outcome" where
  "determineBuildOrder_v1 = determineBuildOrder_with addBase_v1"

definition determineBuildOrder_v2 :: "env \<Rightarrow> repoMetaData \<Rightarrow> string list outcome" where
  "determineBuildOrder_v2 = determineBuildOrder_with addBase_v2"

text \<open>The position of the first occurrence of a name in an order.\<close>

fun index_of :: "'a \<Rightarrow> 'a list \<Rightarrow> nat" where
  "index_of x [] = 0"
| "index_of x (y # ys) = (if x = y then 0 else Suc (index_of x ys))"

definition depGraph_v1 :: "env \<Rightarrow> repoMetaData \<Rightarrow> Graph" where
  "depGraph_v1 = depGraph_with addBase_v1"

definition depGraph_v2 :: "env \<Rightarrow> repoMetaData \<Rightarrow> Graph" where
  "depGraph_v2 = depGraph_with addBase_v2"

text \<open>
  An order puts dependencies first when, for every edge of the graph, both ends are in
  the order and the target's first position is before the source's.
\<close>

definition dependency_before_dependent :: "Graph \<Rightarrow> string list \<Rightarrow> bool" where
  "dependency_before_dependent g order =
     (\<forall>u d. (u, d) \<in> set (edges g) \<longrightarrow>
        u \<in> set order \<and> d \<in> set order \<and> index_of d order < index_of u order)"

text \<open>Invariants of the graph and of the sort's loop.\<close>

definition wf_graph :: "Graph \<Rightarrow> bool" where
  "wf_graph g = (distinct (vertices g) \<and>
     (\<forall>u d. (u, d) \<in> set (edges g) \<longrightarrow> u \<in> set (vertices g) \<and> d \<in> set (vertices g)))"

definition deps_first :: "(string \<times> string) list \<Rightarrow> string list \<Rightarrow> bool" where
  "deps_first E xs =
     (\<forall>u d. (u, d) \<in> set E \<longrightarrow> u \<in> set xs \<longrightarrow> d \<in> set xs \<and> index_of d xs < index_of u xs)"

text \<open>
  How \<open>enumerateBuildableRepos\<close> finds a directory entry: with a control file that
  cannot be parsed, or with one that can.
\<close>

definition unparseable_unit :: "env \<Rightarrow> string \<Rightarrow> string \<Rightarrow> bool" where
  "unparseable_unit env from repo =
     (case Open env (Join env [from, repo, ''debian'', ''control'']) of
        Inl err \<Rightarrow> False
      | Inr ctrlFile \<Rightarrow>
          (case ParseControl env ctrlFile (Join env [from, repo, ''debian'', ''control'']) of
             Inl err \<Rightarrow> True
           | Inr ctrl \<Rightarrow> False))"

definition parseable_unit :: "env \<Rightarrow> string \<Rightarrow> string \<Rightarrow> bool" where
  "parseable_unit env from repo =
     (case Open env (Join env [from, repo, ''debian'', ''control'']) of
        Inl err \<Rightarrow> False
      | Inr ctrlFile \<Rightarrow>
          (case ParseControl env ctrlFile (Join env [from, repo, ''debian'', ''control'']) of
             Inl err \<Rightarrow> False
           | Inr ctrl \<Rightarrow> True))"

text \<open>The targets of the implicit edges in either variant.\<close>

definition baseTargets_v1 :: "string set" where
  "baseTargets_v1 = {''base-files''}"

definition baseTargets_v2 :: "string set" where
  "baseTargets_v2 = {''base-files'', ''lintian-profile-vyatta'', ''linux-vyatta''}"

text \<open>
  The names the spec wants indexed for one binary package: its trimmed name, and the
  trimmed names of its \<open>Provides\<close> declaration when there is one and it parses. And the
  edges the spec wants for one unit from its declared requirements: one to the owner of
  every alternative that the index resolves.
\<close>

definition declaredNames :: "env \<Rightarrow> BinaryParagraph \<Rightarrow> string set" where
  "declaredNames env bin =
     insert (TrimSpace env (Package bin))
       (case Values bin ''Provides'' of
          None \<Rightarrow> {}
        | Some providesStr \<Rightarrow>
            (case Parse env providesStr of
               Inl err \<Rightarrow> {}
             | Inr provides \<Rightarrow>
                 (\<lambda>poss. TrimSpace env (Name poss)) ` set (GetAllPossibilities provides)))"

definition declaredEdges :: "env \<Rightarrow> repoMetaData \<Rightarrow> string \<Rightarrow> Control \<Rightarrow> (string \<times> string) set" where
  "declaredEdges env repos repo ctrl =
     {(repo, drepo) | drepo.
        \<exists>rel \<in> set (Relations (BuildDepends (Source ctrl))).
          \<exists>pos \<in> set (Possibilities rel).
            pack2repo repos (TrimSpace env (Name pos)) = Some drepo}"

text \<open>The parsed control file of a directory entry, when it has one.\<close>

definition controlOf :: "env \<Rightarrow> string \<Rightarrow> string \<Rightarrow> Control option" where
  "controlOf env from repo =
     (case Open env (Join env [from, repo, ''debian'', ''control'']) of
        Inl err \<Rightarrow> None
      | Inr ctrlFile \<Rightarrow>
          (case ParseControl env ctrlFile (Join env [from, repo, ''debian'', ''control'']) of
             Inl err \<Rightarrow> None
           | Inr ctrl \<Rightarrow> Some ctrl))"

section \<open>The process state\<close>

text \<open>
  The values of type \<open>*os.File\<close> that the program handles: the two streams the process
  starts with, the two ends of a pipe, and a regular file opened by name.
\<close>

datatype File = Terminal_out | Terminal_err | PipeW nat | PipeR nat | RegularFile string

text \<open>
  The state the executor reads and changes: the variables \<open>os.Stdout\<close> and
  \<open>os.Stderr\<close>, the bytes the terminal has received on either stream, the pipes created
  so far with the bytes written to each and not yet read, the regular files with, for
  each, the offset of its open handle, and the directories created. A write does not
  fail, and a pipe holds any number of bytes.
\<close>

record world =
  os_Stdout :: File
  os_Stderr :: File
  terminal_out :: string
  terminal_err :: string
  pipes :: nat
  pipe_buf :: "nat \<Rightarrow> string"
  files :: "string \<rightharpoonup> string"
  offset :: "string \<Rightarrow> nat"
  dirs :: "string set"

datatype flag = O_RDWR | O_CREATE | O_TRUNC

datatype MakeBuilderOption =
    SourceDirectory string
  | DestinationDirectory string
  | PreferredPackageDirectory string
  | ImageName string
  | Version string
  | LocalImage

text \<open>
  The collaborators of the executor, taken as parameters: \<open>filepath.Abs\<close>; whether the
  \<open>n\<close>-th \<open>os.Pipe\<close>, an \<open>os.OpenFile\<close> or an \<open>os.MkdirAll\<close> of a path fails; the build
  engine's \<open>MakeBuilder\<close> and \<open>Build\<close>, each giving the text it prints and its error;
  and the effect of \<open>cloneRepos\<close>, whose listing and cloning of remote repositories is
  not modelled further.
\<close>

record sys =
  Abs :: "string \<Rightarrow> error + string"
  Pipe_error :: "nat \<Rightarrow> error option"
  OpenFile_error :: "string \<Rightarrow> error option"
  MkdirAll_error :: "string \<Rightarrow> error option"
  MakeBuilder :: "MakeBuilderOption list \<Rightarrow> string \<times> error option"
  Build :: "MakeBuilderOption list \<Rightarrow> string \<times> error option"
  cloneRepos :: "string \<Rightarrow> world \<Rightarrow> error option \<times> world"

definition newline :: string where
  "newline = [CHR 0x0A]"

text \<open>Writing \<open>data\<close> into a file's content at an offset.\<close>

definition overwrite :: "string \<Rightarrow> nat \<Rightarrow> string \<Rightarrow> string" where
  "overwrite content off data =
     take off content @ replicate (off - length content) (CHR 0x00) @ data
       @ drop (off + length data) content"

definition Write :: "File \<Rightarrow> string \<Rightarrow> world \<Rightarrow> world" where
  "Write f data w =
     (case f of
        Terminal_out \<Rightarrow> w\<lparr>terminal_out := terminal_out w @ data\<rparr>
      | Terminal_err \<Rightarrow> w\<lparr>terminal_err := terminal_err w @ data\<rparr>
      | PipeW i \<Rightarrow> w\<lparr>pipe_buf := (pipe_buf w)(i := pipe_buf w i @ data)\<rparr>
      | PipeR i \<Rightarrow> w
      | RegularFile name \<Rightarrow>
          (case files w name of
             None \<Rightarrow> w
           | Some content \<Rightarrow>
               w\<lparr>files := (files w)(name \<mapsto> overwrite content (offset w name) data),
                  offset := (offset w)(name := offset w name + length data)\<rparr>))"

definition Println :: "string \<Rightarrow> world \<Rightarrow> world" where
  "Println s w = Write (os_Stdout w) (s @ newline) w"

definition Fprintln :: "File \<Rightarrow> string \<Rightarrow> world \<Rightarrow> world" where
  "Fprintln f s w = Write f (s @ newline) w"

definition OpenFile :: "sys \<Rightarrow> string \<Rightarrow> flag list \<Rightarrow> world \<Rightarrow> (error + File) \<times> world" where
  "OpenFile sys name flags w =
     (case OpenFile_error sys name of
        Some e \<Rightarrow> (Inl e, w)
      | None \<Rightarrow>
          (case files w name of
             None \<Rightarrow>
               if O_CREATE \<in> set flags then
                 (Inr (RegularFile name),
                  w\<lparr>files := (files w)(name \<mapsto> []), offset := (offset w)(name := 0)\<rparr>)
               else (Inl (ErrExternal ''no such file or directory''), w)
           | Some content \<Rightarrow>
               (Inr (RegularFile name),
                w\<lparr>files := (files w)(name \<mapsto> (if O_TRUNC \<in> set flags then [] else content)),
                   offset := (offset w)(name := 0)\<rparr>)))"

definition Pipe :: "sys \<Rightarrow> world \<Rightarrow> (error + File \<times> File) \<times> world" where
  "Pipe sys w =
     (case Pipe_error sys (pipes w) of
        Some e \<Rightarrow> (Inl e, w)
      | None \<Rightarrow>
          (Inr (PipeR (pipes w), PipeW (pipes w)),
           w\<lparr>pipes := Suc (pipes w), pipe_buf := (pipe_buf w)(pipes w := [])\<rparr>))"

definition MkdirAll :: "sys \<Rightarrow> string \<Rightarrow> world \<Rightarrow> error option \<times> world" where
  "MkdirAll sys path w =
     (case MkdirAll_error sys path of
        Some e \<Rightarrow> (Some e, w)
      | None \<Rightarrow> (None, w\<lparr>dirs := insert path (dirs w)\<rparr>))"

text \<open>
  \<open>io.Copy(io.MultiWriter(dsts), src)\<close> run until the end of the input: everything
  written to the pipe goes to every destination.
\<close>

definition Copy :: "File list \<Rightarrow> File \<Rightarrow> world \<Rightarrow> world" where
  "Copy dsts src w =
     (case src of
        PipeR i \<Rightarrow>
          (let data = pipe_buf w i
           in fold (\<lambda>dst. Write dst data) dsts (w\<lparr>pipe_buf := (pipe_buf w)(i := [])\<rparr>))
      | _ \<Rightarrow> w)"

text \<open>Sequencing of calls that may panic or exit.\<close>

definition and_then :: "'a outcome \<times> world \<Rightarrow> ('a \<Rightarrow> world \<Rightarrow> 'b outcome \<times> world)
    \<Rightarrow> 'b outcome \<times> world" where
  "and_then m f =
     (case m of
        (Returns x, w) \<Rightarrow> f x w
      | (Panics e, w) \<Rightarrow> (Panics e, w)
      | (Exits n, w) \<Rightarrow> (Exits n, w))"

section \<open>The build executor\<close>

definition resolvePath :: "sys \<Rightarrow> string \<Rightarrow> world \<Rightarrow> string outcome \<times> world" where
  "resolvePath sys p w =
     (case Abs sys p of
        Inl err \<Rightarrow> (Exits 1, Fprintln (os_Stderr w) (Error err) w)
      | Inr out \<Rightarrow> (Returns out, w))"

definition handleError :: "error option \<Rightarrow> world \<Rightarrow> unit outcome \<times> world" where
  "handleError err w =
     (case err of
        Some e \<Rightarrow> (Exits 1, Fprintln (os_Stderr w) (Error e) w)
      | None \<Rightarrow> (Returns (), w))"

text \<open>
  The end of \<open>buildRepo\<close>, from \<open>MakeBuilder\<close> on; what the engine prints goes to the
  current \<open>os.Stdout\<close>.
\<close>

definition runBuilder :: "sys \<Rightarrow> string \<Rightarrow> MakeBuilderOption list \<Rightarrow> world
    \<Rightarrow> error option outcome \<times> world" where
  "runBuilder sys repo opts w =
     (case MakeBuilder sys opts of
        (out1, Some err) \<Rightarrow> (Returns (Some (buildError repo err)), Write (os_Stdout w) out1 w)
      | (out1, None) \<Rightarrow>
          (let w1 = Write (os_Stdout w) out1 w
           in case Build sys opts of
                (out2, Some err) \<Rightarrow>
                  (Returns (Some (buildError repo err)), Write (os_Stdout w1) out2 w1)
              | (out2, None) \<Rightarrow> (Returns None, Write (os_Stdout w1) out2 w1)))"

definition buildRepo_v1 :: "env \<Rightarrow> sys \<Rightarrow> string \<Rightarrow> string \<Rightarrow> string \<Rightarrow> string \<Rightarrow> world
    \<Rightarrow> error option outcome \<times> world" where
  "buildRepo_v1 env sys debDir baseDir repo version w =
     and_then (resolvePath sys (Join env [baseDir, repo]) (Println (''Building '' @ repo) w))
       (\<lambda>src. \<lambda>w. and_then (resolvePath sys debDir w)
         (\<lambda>dst. \<lambda>w. and_then (resolvePath sys debDir w)
           (\<lambda>pref. \<lambda>w. runBuilder sys repo
              [SourceDirectory src, DestinationDirectory dst,
               PreferredPackageDirectory pref, Version version] w)))"

definition buildRepo_v2 :: "env \<Rightarrow> sys \<Rightarrow> string \<Rightarrow> string \<Rightarrow> string \<Rightarrow> string \<Rightarrow> string
    \<Rightarrow> bool \<Rightarrow> world \<Rightarrow> error option outcome \<times> world" where
  "buildRepo_v2 env sys debDir baseDir repo imageName version local w =
     and_then (resolvePath sys (Join env [baseDir, repo]) (Println (''Building '' @ repo) w))
       (\<lambda>repoPath. \<lambda>w. and_then (resolvePath sys debDir w)
         (\<lambda>dst. \<lambda>w. and_then (resolvePath sys debDir w)
           (\<lambda>pref. \<lambda>w. runBuilder sys repo
              ([SourceDirectory repoPath, DestinationDirectory dst,
                PreferredPackageDirectory pref, ImageName imageName, Version version]
               @ (if local then [LocalImage] else [])) w)))"

text \<open>
  \<open>teeAndEval\<close>, with the flags of its \<open>os.OpenFile\<close> as a parameter: the two variants
  differ in them only. The goroutine that copies the pipe runs while \<open>fn\<close> does; the
  model lets it run when \<open>wg.Wait()\<close> blocks for it, after \<open>outw.Close()\<close> has ended its
  input.
\<close>

definition teeAndEval_flags :: "flag list \<Rightarrow> env \<Rightarrow> sys \<Rightarrow> string \<Rightarrow> string
    \<Rightarrow> (world \<Rightarrow> error option outcome \<times> world) \<Rightarrow> world \<Rightarrow> error option outcome \<times> world" where
  "teeAndEval_flags flags env sys logdir repo fn w =
     (let stdout = os_Stdout w;
          stderr = os_Stderr w
      in case Pipe sys w of
           (Inl e, w1) \<Rightarrow> (Returns (Some e), w1)
         | (Inr (outr, outw), w1) \<Rightarrow>
             (let w2 = w1\<lparr>os_Stdout := outw, os_Stderr := outw\<rparr>
              in case OpenFile sys (Join env [logdir, repo @ ''.log'']) flags w2 of
                   (Inl e, w3) \<Rightarrow> (Returns (Some e), w3)
                 | (Inr outf, w3) \<Rightarrow>
                     and_then (fn w3)
                       (\<lambda>rval. \<lambda>w4.
                          (let w5 = w4\<lparr>os_Stdout := stdout, os_Stderr := stderr\<rparr>
                           in (Returns rval, Copy [stdout, outf] outr w5)))))"

definition teeAndEval_v1 :: "env \<Rightarrow> sys \<Rightarrow> string \<Rightarrow> string
    \<Rightarrow> (world \<Rightarrow> error option outcome \<times> world) \<Rightarrow> world \<Rightarrow> error option outcome \<times> world" where
  "teeAndEval_v1 = teeAndEval_flags [O_RDWR, O_CREATE]"

definition teeAndEval_v2 :: "env \<Rightarrow> sys \<Rightarrow> string \<Rightarrow> string
    \<Rightarrow> (world \<Rightarrow> error option outcome \<times> world) \<Rightarrow> world \<Rightarrow> error option outcome \<times> world" where
  "teeAndEval_v2 = teeAndEval_flags [O_RDWR, O_CREATE, O_TRUNC]"

text \<open>
  The loop of the worker goroutine in \<open>buildRepos\<close>, with \<open>buildErrs\<close> as accumulator;
  \<open>tee repo\<close> is the call of \<open>teeAndEval\<close> for one unit.
\<close>

fun worker :: "(string \<Rightarrow> world \<Rightarrow> error option outcome \<times> world) \<Rightarrow> File \<Rightarrow> string list
    \<Rightarrow> error list \<Rightarrow> world \<Rightarrow> error list outcome \<times> world" where
  "worker tee logf [] buildErrs w = (Returns buildErrs, w)"
| "worker tee logf (repo # repos) buildErrs w =
     (case tee repo w of
        (Returns None, w1) \<Rightarrow> worker tee logf repos buildErrs w1
      | (Returns (Some err), w1) \<Rightarrow>
          worker tee logf repos (buildErrs @ [err]) (Fprintln logf (Error err) w1)
      | (Panics e, w1) \<Rightarrow> (Panics e, w1)
      | (Exits n, w1) \<Rightarrow> (Exits n, w1))"

text \<open>
  \<open>buildRepos\<close>, with the flags of the failure log and the call of \<open>teeAndEval\<close> as
  parameters. The model is of the runs in which the \<open>select\<close> takes its \<open>done\<close> case;
  the interrupt signal, which races with the worker, is not modelled.
\<close>

definition buildRepos_with :: "flag list \<Rightarrow> (string \<Rightarrow> world \<Rightarrow> error option outcome \<times> world)
    \<Rightarrow> env \<Rightarrow> sys \<Rightarrow> string list \<Rightarrow> string \<Rightarrow> world \<Rightarrow> error option outcome \<times> world" where
  "buildRepos_with flags tee env sys repos logDir w =
     (case OpenFile sys (Join env [logDir, ''failed-builds.log'']) flags w of
        (Inl err, w1) \<Rightarrow> (Returns (Some err), w1)
      | (Inr logf, w1) \<Rightarrow>
          and_then (worker tee logf repos [] w1)
            (\<lambda>buildErrs. \<lambda>w2.
               (Returns (if length buildErrs \<noteq> 0 then Some (errList buildErrs) else None),
                Println ''finished builds'' w2)))"

definition buildRepos_v1 :: "env \<Rightarrow> sys \<Rightarrow> string list \<Rightarrow> string \<Rightarrow> string \<Rightarrow> string \<Rightarrow> string
    \<Rightarrow> world \<Rightarrow> error option outcome \<times> world" where
  "buildRepos_v1 env sys repos logDir debDir baseDir version =
     buildRepos_with [O_RDWR, O_CREATE]
       (\<lambda>repo. teeAndEval_v1 env sys logDir repo
          (buildRepo_v1 env sys debDir baseDir repo version))
       env sys repos logDir"

definition buildRepos_v2 :: "env \<Rightarrow> sys \<Rightarrow> string list \<Rightarrow> string \<Rightarrow> string \<Rightarrow> string \<Rightarrow> string
    \<Rightarrow> string \<Rightarrow> bool \<Rightarrow> world \<Rightarrow> error option outcome \<times> world" where
  "buildRepos_v2 env sys repos logDir debDir baseDir imageName version local =
     buildRepos_with [O_RDWR, O_CREATE, O_TRUNC]
       (\<lambda>repo. teeAndEval_v2 env sys logDir repo
          (buildRepo_v2 env sys debDir baseDir repo imageName version local))
       env sys repos logDir"


text \<open>
  The state in which \<open>teeAndEval\<close> calls \<open>fn\<close>, when the pipe and the log file have
  been opened: the pipe exists, both streams are its write end, the log file is open.
\<close>

definition redirected :: "world \<Rightarrow> world" where
  "redirected w =
     w\<lparr>pipes := Suc (pipes w), pipe_buf := (pipe_buf w)(pipes w := []),
       os_Stdout := PipeW (pipes w), os_Stderr := PipeW (pipes w)\<rparr>"

definition fn_entry :: "flag list \<Rightarrow> env \<Rightarrow> sys \<Rightarrow> string \<Rightarrow> string \<Rightarrow> world \<Rightarrow> world" where
  "fn_entry flags env sys logdir repo w =
     snd (OpenFile sys (Join env [logdir, repo @ ''.log'']) flags (redirected w))"

text \<open>
  What a run of the executor is expected to leave, read off the build engine: for a
  list of options the error of \<open>MakeBuilder\<close> or else of \<open>Build\<close>, and the text the two
  print; the options \<open>buildRepo\<close> passes for a unit when \<open>filepath.Abs\<close> maps a path \<open>p\<close>
  to \<open>absf p\<close>; the failures of a list of units, each wrapped with its unit's name; and
  what the units print, each after its \<open>Building\<close> line.
\<close>

definition engineResult :: "sys \<Rightarrow> MakeBuilderOption list \<Rightarrow> error option" where
  "engineResult sys opts =
     (case MakeBuilder sys opts of
        (out1, Some err) \<Rightarrow> Some err
      | (out1, None) \<Rightarrow> snd (Build sys opts))"

definition engineOutput :: "sys \<Rightarrow> MakeBuilderOption list \<Rightarrow> string" where
  "engineOutput sys opts =
     (case MakeBuilder sys opts of
        (out1, Some err) \<Rightarrow> out1
      | (out1, None) \<Rightarrow> out1 @ fst (Build sys opts))"

definition options_v1 :: "env \<Rightarrow> (string \<Rightarrow> string) \<Rightarrow> string \<Rightarrow> string \<Rightarrow> string \<Rightarrow> string
    \<Rightarrow> MakeBuilderOption list" where
  "options_v1 env absf debDir baseDir version repo =
     [SourceDirectory (absf (Join env [baseDir, repo])), DestinationDirectory (absf debDir),
      PreferredPackageDirectory (absf debDir), Version version]"

definition options_v2 :: "env \<Rightarrow> (string \<Rightarrow> string) \<Rightarrow> string \<Rightarrow> string \<Rightarrow> string \<Rightarrow> string
    \<Rightarrow> bool \<Rightarrow> string \<Rightarrow> MakeBuilderOption list" where
  "options_v2 env absf debDir baseDir imageName version local repo =
     [SourceDirectory (absf (Join env [baseDir, repo])), DestinationDirectory (absf debDir),
      PreferredPackageDirectory (absf debDir), ImageName imageName, Version version]
     @ (if local then [LocalImage] else [])"

definition failures :: "sys \<Rightarrow> (string \<Rightarrow> MakeBuilderOption list) \<Rightarrow> string list \<Rightarrow> error list" where
  "failures sys opts repos =
     List.map_filter (\<lambda>repo. map_option (buildError repo) (engineResult sys (opts repo))) repos"

definition transcript :: "sys \<Rightarrow> (string \<Rightarrow> MakeBuilderOption list) \<Rightarrow> string list \<Rightarrow> string" where
  "transcript sys opts repos =
     concat (map (\<lambda>repo. ''Building '' @ repo @ newline @ engineOutput sys (opts repo)) repos)"

definition unitLog :: "env \<Rightarrow> string \<Rightarrow> string \<Rightarrow> string" where
  "unitLog env logDir repo = Join env [logDir, repo @ ''.log'']"

definition failureLog :: "env \<Rightarrow> string \<Rightarrow> string" where
  "failureLog env logDir = Join env [logDir, ''failed-builds.log'']"

section \<open>The command\<close>

text \<open>
  The package-level variables that \<open>flag.Parse\<close> sets. \<open>src/main.go\<close> declares six of
  them; \<open>local\<close>, \<open>imageName\<close> and \<open>gitRef\<close> are of the second variant only.
\<close>

record flags =
  clone :: bool
  build :: bool
  local :: bool
  srcDir :: string
  pkgDir :: string
  logDir :: string
  imageName :: string
  version :: string
  gitRef :: string

text \<open>What \<open>fmt.Printf\<close> makes of \<open>%d\<close> for a length and of \<open>%s\<close> for a slice of strings.\<close>

definition digit :: "nat \<Rightarrow> char" where
  "digit n = ''0123456789'' ! (n mod 10)"

function decimal :: "nat \<Rightarrow> string" where
  "decimal n = (if n < 10 then [digit n] else decimal (n div 10) @ [digit n])"
  by pat_completeness auto
termination
  by (relation "measure (\<lambda>n. n)") auto

fun join_space :: "string list \<Rightarrow> string" where
  "join_space [] = []"
| "join_space [x] = x"
| "join_space (x # y # ys) = x @ '' '' @ join_space (y # ys)"

definition buildOrderLine :: "string list \<Rightarrow> string" where
  "buildOrderLine buildOrder =
     ''Build order ('' @ decimal (length buildOrder) @ '' repos): [''
       @ join_space buildOrder @ '']'' @ newline"

definition main_v1 :: "flags \<Rightarrow> env \<Rightarrow> sys \<Rightarrow> world \<Rightarrow> unit outcome \<times> world" where
  "main_v1 fl env sys w =
     and_then
       (if clone fl then
          (case cloneRepos sys (srcDir fl) w of (err, w1) \<Rightarrow> handleError err w1)
        else (Returns (), w))
       (\<lambda>_. \<lambda>w. and_then (enumerateBuildableRepos_v1 env (srcDir fl), w)
         (\<lambda>repos. \<lambda>w. and_then (determineBuildOrder_v1 env repos, w)
           (\<lambda>buildOrder. \<lambda>w.
              (let w1 = Write (os_Stdout w) (buildOrderLine buildOrder) w
               in if build fl then
                    (case MkdirAll sys (logDir fl) w1 of
                       (err, w2) \<Rightarrow>
                         and_then (handleError err w2)
                           (\<lambda>_. \<lambda>w. and_then
                              (buildRepos_v1 env sys buildOrder (logDir fl) (pkgDir fl)
                                 (srcDir fl) (version fl) w)
                              handleError))
                  else (Returns (), w1)))))"

definition main_v2 :: "flags \<Rightarrow> env \<Rightarrow> sys \<Rightarrow> world \<Rightarrow> unit outcome \<times> world" where
  "main_v2 fl env sys w =
     and_then
       (if clone fl then
          and_then
            (if gitRef fl = [] then
               handleError (Some (ErrExternal ''Must supply git ref to clone'')) w
             else (Returns (), w))
            (\<lambda>_. \<lambda>w. case cloneRepos sys (srcDir fl) w of (err, w1) \<Rightarrow> handleError err w1)
        else (Returns (), w))
       (\<lambda>_. \<lambda>w. and_then (enumerateBuildableRepos_v2 env (srcDir fl), w)
         (\<lambda>repos. \<lambda>w. and_then (determineBuildOrder_v2 env repos, w)
           (\<lambda>buildOrder. \<lambda>w.
              (let w1 = Write (os_Stdout w) (buildOrderLine buildOrder) w
               in if build fl then
                    (case MkdirAll sys (logDir fl) w1 of
                       (err, w2) \<Rightarrow>
                         and_then (handleError err w2)
                           (\<lambda>_. \<lambda>w. and_then
                              (buildRepos_v2 env sys buildOrder (logDir fl) (pkgDir fl)
                                 (srcDir fl) (imageName fl) (version fl) (local fl) w)
                              handleError))
                  else (Returns (), w1)))))"

section \<open>An example corpus\<close>

text \<open>
  A small corpus on which the theorems below are applied. Its collaborators: a
  \<open>TrimSpace\<close> for ASCII white space, a \<open>Join\<close> with slashes, a source directory whose
  listing is a parameter, seven control files, a control parser that knows their
  contents, and a dependency parser that rejects \<open>!\<close> and reads any other string as
  one name.
\<close>

definition is_space :: "char \<Rightarrow> bool" where
  "is_space c = (c \<in> set [CHR '' '', CHR 0x09, CHR 0x0A, CHR 0x0B, CHR 0x0C, CHR 0x0D])"

definition trim_ascii :: "string \<Rightarrow> string" where
  "trim_ascii s = rev (dropWhile is_space (rev (dropWhile is_space s)))"

fun join_slash :: "string list \<Rightarrow> string" where
  "join_slash [] = []"
| "join_slash [x] = x"
| "join_slash (x # y # ys) = x @ ''/'' @ join_slash (y # ys)"

definition one_name :: "string \<Rightarrow> Depends" where
  "one_name s = \<lparr>Relations = [\<lparr>Possibilities = [\<lparr>Name = s\<rparr>]\<rparr>]\<rparr>"

definition example_Open :: "string \<Rightarrow> error + string" where
  "example_Open path =
     (if path = ''src/a/debian/control'' then Inr ''A''
      else if path = ''src/b/debian/control'' then Inr ''B''
      else if path = ''src/base-files/debian/control'' then Inr ''BASE''
      else if path = ''src/broken/debian/control'' then Inr ''?''
      else if path = ''src/linux-vyatta/debian/control'' then Inr ''?''
      else if path = ''src/c/debian/control'' then Inr ''C''
      else if path = ''src/d/debian/control'' then Inr ''D''
      else Inl (ErrExternal ''no such file''))"

definition example_ParseControl :: "string \<Rightarrow> string \<Rightarrow> error + Control" where
  "example_ParseControl ctrlFile path =
     (if ctrlFile = ''A'' then
        Inr \<lparr>Source = \<lparr>BuildDepends = \<lparr>Relations =
                [\<lparr>Possibilities = [\<lparr>Name = '' libb-dev''\<rparr>, \<lparr>Name = ''libc6-dev''\<rparr>]\<rparr>]\<rparr>\<rparr>,
             Binaries = [\<lparr>Package = ''a '', Values = Map.empty\<rparr>]\<rparr>
      else if ctrlFile = ''B'' then
        Inr \<lparr>Source = \<lparr>BuildDepends = \<lparr>Relations = []\<rparr>\<rparr>,
             Binaries = [\<lparr>Package = ''b-doc'', Values = [''Provides'' \<mapsto> ''!'']\<rparr>,
                         \<lparr>Package = '' b'', Values = [''Provides'' \<mapsto> ''libb-dev '']\<rparr>]\<rparr>
      else if ctrlFile = ''C'' then
        Inr \<lparr>Source = \<lparr>BuildDepends = \<lparr>Relations =
                [\<lparr>Possibilities = [\<lparr>Name = ''d-dev''\<rparr>]\<rparr>]\<rparr>\<rparr>,
             Binaries = [\<lparr>Package = ''c-dev'', Values = Map.empty\<rparr>]\<rparr>
      else if ctrlFile = ''D'' then
        Inr \<lparr>Source = \<lparr>BuildDepends = \<lparr>Relations =
                [\<lparr>Possibilities = [\<lparr>Name = ''c-dev''\<rparr>]\<rparr>]\<rparr>\<rparr>,
             Binaries = [\<lparr>Package = ''d-dev'', Values = Map.empty\<rparr>]\<rparr>
      else if ctrlFile = ''BASE'' then
        Inr \<lparr>Source = \<lparr>BuildDepends = \<lparr>Relations = []\<rparr>\<rparr>,
             Binaries = [\<lparr>Package = ''base-files'', Values = Map.empty\<rparr>]\<rparr>
      else Inl (ErrExternal ''malformed control file''))"

definition example_env :: "string list \<Rightarrow> env" where
  "example_env names =
     \<lparr>TrimSpace = trim_ascii,
      Join = join_slash,
      ReadDir = (\<lambda>dir. if dir = ''src'' then Inr names else Inl (ErrExternal ''no such directory'')),
      Open = example_Open,
      ParseControl = example_ParseControl,
      Parse = (\<lambda>s. if s = ''!'' then Inl (ErrExternal ''malformed dependency'')
                    else Inr (one_name s))\<rparr>"


text \<open>The metadata index of the example corpus with a given directory listing.\<close>

definition example_repos_v1 :: "string list \<Rightarrow> repoMetaData" where
  "example_repos_v1 names =
     (case enumerateBuildableRepos_v1 (example_env names) ''src'' of
        Returns repos \<Rightarrow> repos
      | _ \<Rightarrow> \<lparr>ctrlFiles = [], pack2repo = Map.empty, unparseable = []\<rparr>)"

definition example_repos_v2 :: "string list \<Rightarrow> repoMetaData" where
  "example_repos_v2 names =
     (case enumerateBuildableRepos_v2 (example_env names) ''src'' of
        Returns repos \<Rightarrow> repos
      | _ \<Rightarrow> \<lparr>ctrlFiles = [], pack2repo = Map.empty, unparseable = []\<rparr>)"

definition example_rank :: "string \<Rightarrow> nat" where
  "example_rank s = (if s = ''a'' then 2 else if s = ''b'' then 1 else 0)"


text \<open>
  An example system: every path resolves, no pipe fails, one log file cannot be opened,
  the build of \<open>b\<close> fails and every other build succeeds. In the example state the
  failure log of an earlier run is still there.
\<close>

definition example_sys :: sys where
  "example_sys =
     \<lparr>Abs = (\<lambda>p. Inr (''/work/'' @ p)),
      Pipe_error = (\<lambda>n. None),
      OpenFile_error = (\<lambda>name. if name = ''log/locked.log''
                                then Some (ErrExternal ''permission denied'') else None),
      MkdirAll_error = (\<lambda>path. None),
      MakeBuilder = (\<lambda>opts. ([], None)),
      Build = (\<lambda>opts. if SourceDirectory ''/work/src/b'' \<in> set opts
                       then (''make: error'' @ newline, Some (ErrExternal ''exit status 2''))
                       else (''ok'' @ newline, None)),
      cloneRepos = (\<lambda>into w. (None, w))\<rparr>"

definition example_world :: world where
  "example_world =
     \<lparr>os_Stdout = Terminal_out,
      os_Stderr = Terminal_err,
      terminal_out = [],
      terminal_err = [],
      pipes = 0,
      pipe_buf = (\<lambda>i. []),
      files = [''log/failed-builds.log'' \<mapsto>
                 ''build for zebra failed: exit status 1'' @ newline],
      offset = (\<lambda>name. 0),
      dirs = {''log''}\<rparr>"

definition example_flags :: flags where
  "example_flags =
     \<lparr>clone = False, build = False, local = False, srcDir = ''src'', pkgDir = ''pkg'',
      logDir = ''log'', imageName = ''jsouthworth/danos-buildpackage'',
      version = ''debian10-bootstrap'', gitRef = []\<rparr>"

text \<open>The example corpus with a control file of \<open>base-files\<close> that cannot be parsed.\<close>

definition example_broken_env :: "string list \<Rightarrow> env" where
  "example_broken_env names =
     (example_env names)
       \<lparr>Open := (\<lambda>path. if path = ''src/base-files/debian/control'' then Inr ''?''
                         else example_Open path)\<rparr>"

definition example_broken_repos_v1 :: "string list \<Rightarrow> repoMetaData" where
  "example_broken_repos_v1 names =
     (case enumerateBuildableRepos_v1 (example_broken_env names) ''src'' of
        Returns repos \<Rightarrow> repos
      | _ \<Rightarrow> \<lparr>ctrlFiles = [], pack2repo = Map.empty, unparseable = []\<rparr>)"

definition example_broken_repos_v2 :: "string list \<Rightarrow> repoMetaData" where
  "example_broken_repos_v2 names =
     (case enumerateBuildableRepos_v2 (example_broken_env names) ''src'' of
        Returns repos \<Rightarrow> repos
      | _ \<Rightarrow> \<lparr>ctrlFiles = [], pack2repo = Map.empty, unparseable = []\<rparr>)"

section \<open>Properties of the topological sort\<close>

lemma index_of_append_in: "x \<in> set xs \<Longrightarrow> index_of x (xs @ ys) = index_of x xs"
  by (induction xs) auto

lemma index_of_append_notin: "x \<notin> set xs \<Longrightarrow> index_of x (xs @ ys) = length xs + index_of x ys"
  by (induction xs) auto

lemma index_of_less: "x \<in> set xs \<Longrightarrow> index_of x xs < length xs"
  by (induction xs) auto

lemma index_of_nth: "x \<in> set xs \<Longrightarrow> xs ! index_of x xs = x"
  by (induction xs) auto

lemma ready_iff: "ready E placed v \<longleftrightarrow> (\<forall>d. (v, d) \<in> set E \<longrightarrow> d \<in> set placed)"
  by (auto simp: ready_def targets_def list_all_iff)

lemma deps_first_snoc:
  assumes "deps_first E placed" "ready E placed v" "v \<notin> set placed"
  shows "deps_first E (placed @ [v])"
  unfolding deps_first_def
proof (intro allI impI)
  fix u d assume e: "(u, d) \<in> set E" and u: "u \<in> set (placed @ [v])"
  show "d \<in> set (placed @ [v]) \<and> index_of d (placed @ [v]) < index_of u (placed @ [v])"
  proof (cases "u \<in> set placed")
    case True
    with assms(1) e have "d \<in> set placed" "index_of d placed < index_of u placed"
      by (auto simp: deps_first_def)
    with True show ?thesis by (simp add: index_of_append_in)
  next
    case False
    with u have uv: "u = v" by simp
    with e assms(2) have d: "d \<in> set placed" by (simp add: ready_iff)
    then have "index_of d placed < length placed" by (rule index_of_less)
    with d uv assms(3) show ?thesis
      by (simp add: index_of_append_in index_of_append_notin)
  qed
qed

lemma sort_loop_sound:
  "sort_loop E rem placed = Inr out \<Longrightarrow> distinct rem \<Longrightarrow> distinct placed
    \<Longrightarrow> set rem \<inter> set placed = {} \<Longrightarrow> deps_first E placed
    \<Longrightarrow> distinct out \<and> set out = set rem \<union> set placed \<and> deps_first E out"
proof (induction E rem placed rule: sort_loop.induct)
  case (1 E rem placed)
  show ?case
  proof (cases "rem = []")
    case True
    with "1.prems" show ?thesis by simp
  next
    case False
    with "1.prems"(1) obtain v where f: "find (ready E placed) rem = Some v"
      and r: "sort_loop E (remove1 v rem) (placed @ [v]) = Inr out"
      by (auto split: option.splits)
    from f have vin: "v \<in> set rem" and rdy: "ready E placed v"
      by (auto simp: find_Some_iff)
    from vin "1.prems"(4) have vnp: "v \<notin> set placed" by auto
    have "distinct out \<and> set out = set (remove1 v rem) \<union> set (placed @ [v]) \<and> deps_first E out"
    proof (rule "1.IH"[OF False f r])
      show "distinct (remove1 v rem)" using "1.prems"(2) by simp
      show "distinct (placed @ [v])" using "1.prems"(3) vnp by simp
      show "set (remove1 v rem) \<inter> set (placed @ [v]) = {}"
        using "1.prems"(2,4) by auto
      show "deps_first E (placed @ [v])"
        using "1.prems"(5) rdy vnp by (rule deps_first_snoc)
    qed
    moreover have "set (remove1 v rem) \<union> set (placed @ [v]) = set rem \<union> set placed"
      using vin "1.prems"(2) by auto
    ultimately show ?thesis by simp
  qed
qed

lemma exists_ready:
  assumes ac: "acyclic (set E)" and ne: "rem \<noteq> []"
    and cl: "snd ` set E \<subseteq> set rem \<union> set placed"
  shows "\<exists>v \<in> set rem. ready E placed v"
proof -
  have "wf ((set E)\<inverse>)" using ac by (simp add: finite_acyclic_wf_converse)
  moreover from ne obtain x where "x \<in> set rem" by (cases rem) auto
  ultimately obtain z where z: "z \<in> set rem" and m: "\<And>y. (y, z) \<in> (set E)\<inverse> \<Longrightarrow> y \<notin> set rem"
    by (rule wfE_min) blast
  have "ready E placed z"
    unfolding ready_iff
  proof (intro allI impI)
    fix d assume e: "(z, d) \<in> set E"
    then have "d \<notin> set rem" using m by simp
    moreover from e cl have "d \<in> set rem \<union> set placed" by force
    ultimately show "d \<in> set placed" by simp
  qed
  with z show ?thesis by blast
qed

lemma sort_loop_complete:
  "acyclic (set E) \<Longrightarrow> snd ` set E \<subseteq> set rem \<union> set placed
    \<Longrightarrow> \<exists>out. sort_loop E rem placed = Inr out"
proof (induction E rem placed rule: sort_loop.induct)
  case (1 E rem placed)
  show ?case
  proof (cases "rem = []")
    case True
    then show ?thesis by simp
  next
    case False
    from exists_ready[OF "1.prems"(1) False "1.prems"(2)]
    obtain v where f: "find (ready E placed) rem = Some v"
      by (cases "find (ready E placed) rem") (auto simp: find_None_iff)
    then have vin: "v \<in> set rem" by (auto simp: find_Some_iff)
    have "snd ` set E \<subseteq> set (remove1 v rem) \<union> set (placed @ [v])"
    proof
      fix d assume "d \<in> snd ` set E"
      with "1.prems"(2) have "d \<in> set rem \<union> set placed" by blast
      then show "d \<in> set (remove1 v rem) \<union> set (placed @ [v])"
        by (cases "d = v") auto
    qed
    from "1.IH"[OF False f "1.prems"(1) this] False f show ?thesis by simp
  qed
qed

lemma sort_loop_Inl: "sort_loop E rem placed = Inl e \<Longrightarrow> e = ErrCycle"
proof (induction E rem placed rule: sort_loop.induct)
  case (1 E rem placed)
  then show ?case
    by (cases "rem = []"; cases "find (ready E placed) rem") auto
qed

lemma acyclic_rank:
  assumes "\<And>u d. (u, d) \<in> r \<Longrightarrow> f d < (f u :: nat)"
  shows "acyclic r"
proof -
  have "r\<inverse> \<subseteq> measure f" using assms by auto
  then have "wf (r\<inverse>)" by (rule wf_subset[OF wf_measure])
  then have "acyclic (r\<inverse>)" by (rule wf_acyclic)
  then show ?thesis by simp
qed

lemma Sort_sound:
  assumes "wf_graph g" "Sort g = Inr out"
  shows "distinct out \<and> set out = set (vertices g) \<and> deps_first (edges g) out"
proof -
  have "distinct out \<and> set out = set (sort (vertices g)) \<union> set [] \<and> deps_first (edges g) out"
    using assms by (intro sort_loop_sound) (auto simp: Sort_def wf_graph_def deps_first_def)
  then show ?thesis by simp
qed

lemma Sort_complete:
  assumes "wf_graph g" "acyclic (set (edges g))"
  shows "\<exists>out. Sort g = Inr out"
  unfolding Sort_def
proof (rule sort_loop_complete[OF assms(2)])
  show "snd ` set (edges g) \<subseteq> set (sort (vertices g)) \<union> set []"
    using assms(1) by (auto simp: wf_graph_def)
qed

lemma Sort_before:
  assumes "wf_graph g" "Sort g = Inr out"
  shows "dependency_before_dependent g out"
proof -
  from Sort_sound[OF assms] have s: "set out = set (vertices g)" and d: "deps_first (edges g) out"
    by auto
  show ?thesis
    unfolding dependency_before_dependent_def
  proof (intro allI impI)
    fix u d assume e: "(u, d) \<in> set (edges g)"
    with assms(1) s have "u \<in> set out" by (auto simp: wf_graph_def)
    with d e show "u \<in> set out \<and> d \<in> set out \<and> index_of d out < index_of u out"
      by (auto simp: deps_first_def)
  qed
qed

lemma Sort_cyclic:
  assumes "wf_graph g" "\<not> acyclic (set (edges g))"
  shows "Sort g = Inl ErrCycle"
proof (cases "Sort g")
  case (Inl e)
  then show ?thesis using sort_loop_Inl[of "edges g" "sort (vertices g)" "[]" e]
    by (simp add: Sort_def)
next
  case (Inr out)
  from Sort_before[OF assms(1) Inr]
  have "\<And>u d. (u, d) \<in> set (edges g) \<Longrightarrow> index_of d out < index_of u out"
    by (simp add: dependency_before_dependent_def)
  then have "acyclic (set (edges g))" by (rule acyclic_rank)
  with assms(2) show ?thesis by simp
qed

section \<open>Properties of the dependency graph\<close>

lemma wf_graph_New: "wf_graph New"
  by (simp add: wf_graph_def New_def)

lemma wf_graph_AddVertex: "wf_graph g \<Longrightarrow> wf_graph (AddVertex v g)"
  by (auto simp: wf_graph_def AddVertex_def)

lemma vertices_AddVertex: "set (vertices (AddVertex v g)) = insert v (set (vertices g))"
  by (auto simp: AddVertex_def)

lemma edges_AddVertex: "edges (AddVertex v g) = edges g"
  by (auto simp: AddVertex_def)

lemma distinct_AddVertex: "distinct (vertices g) \<Longrightarrow> distinct (vertices (AddVertex v g))"
  by (auto simp: AddVertex_def)

lemma set_edges_AddEdge: "set (edges (AddEdge u d g)) = insert (u, d) (set (edges g))"
  by (auto simp: AddEdge_def Let_def edges_AddVertex)

lemma vertices_AddEdge: "set (vertices (AddEdge u d g)) = insert u (insert d (set (vertices g)))"
  by (auto simp: AddEdge_def Let_def vertices_AddVertex)

lemma distinct_AddEdge: "distinct (vertices g) \<Longrightarrow> distinct (vertices (AddEdge u d g))"
  by (auto simp: AddEdge_def Let_def distinct_AddVertex)

lemma wf_graph_AddEdge: "wf_graph g \<Longrightarrow> wf_graph (AddEdge u d g)"
  unfolding wf_graph_def
  by (simp add: set_edges_AddEdge vertices_AddEdge distinct_AddEdge)

lemma wf_graph_addPossibility: "wf_graph g \<Longrightarrow> wf_graph (addPossibility env repos repo g pos)"
  by (simp add: addPossibility_def wf_graph_AddEdge split: option.splits)

lemma wf_graph_foldl:
  "(\<And>g x. wf_graph g \<Longrightarrow> wf_graph (f g x)) \<Longrightarrow> wf_graph g \<Longrightarrow> wf_graph (foldl f g xs)"
  by (induction xs arbitrary: g) auto

lemma wf_graph_addRelations: "wf_graph g \<Longrightarrow> wf_graph (addRelations env repos repo ctrl g)"
  unfolding addRelations_def
  by (intro wf_graph_foldl wf_graph_addPossibility)

lemma wf_graph_addBase_v1: "wf_graph g \<Longrightarrow> wf_graph (addBase_v1 repo g)"
  by (simp add: addBase_v1_def wf_graph_AddEdge)

lemma wf_graph_addBase_v2: "wf_graph g \<Longrightarrow> wf_graph (addBase_v2 repo g)"
  by (simp add: addBase_v2_def Let_def wf_graph_AddEdge)

lemma wf_graph_depGraph_with:
  assumes "\<And>repo g. wf_graph g \<Longrightarrow> wf_graph (addBase repo g)"
  shows "wf_graph (depGraph_with addBase env repos)"
  unfolding depGraph_with_def
proof (rule wf_graph_foldl)
  show "wf_graph New" by (rule wf_graph_New)
next
  fix g :: Graph and x :: "string \<times> Control"
  assume "wf_graph g"
  then show "wf_graph (addRepo addBase env repos g x)"
    by (cases x) (simp add: addRepo_def wf_graph_addRelations assms wf_graph_AddVertex)
qed

lemma wf_graph_depGraph_v1: "wf_graph (depGraph_v1 env repos)"
  unfolding depGraph_v1_def by (rule wf_graph_depGraph_with) (rule wf_graph_addBase_v1)

lemma wf_graph_depGraph_v2: "wf_graph (depGraph_v2 env repos)"
  unfolding depGraph_v2_def by (rule wf_graph_depGraph_with) (rule wf_graph_addBase_v2)

lemma before_append:
  "dependency_before_dependent g xs \<Longrightarrow> dependency_before_dependent g (xs @ ys)"
  by (auto simp: dependency_before_dependent_def index_of_append_in)

lemma determineBuildOrder_with_acyclic:
  assumes "wf_graph (depGraph_with addBase env repos)"
    and "acyclic (set (edges (depGraph_with addBase env repos)))"
  shows "\<exists>order. determineBuildOrder_with addBase env repos = Returns order
      \<and> dependency_before_dependent (depGraph_with addBase env repos) order"
proof -
  from Sort_complete[OF assms] obtain out where o: "Sort (depGraph_with addBase env repos) = Inr out" ..
  from Sort_before[OF assms(1) o] have "dependency_before_dependent (depGraph_with addBase env repos) (out @ unparseable repos)"
    by (rule before_append)
  with o show ?thesis by (simp add: determineBuildOrder_with_def)
qed

lemma determineBuildOrder_with_cyclic:
  assumes "wf_graph (depGraph_with addBase env repos)"
    and "\<not> acyclic (set (edges (depGraph_with addBase env repos)))"
  shows "determineBuildOrder_with addBase env repos = Panics ErrCycle"
  using Sort_cyclic[OF assms] by (simp add: determineBuildOrder_with_def)

section \<open>The build order\<close>

lemma example_enumerate_v1:
  "enumerateBuildableRepos_v1 (example_env names) ''src'' = Returns (example_repos_v1 names)"
  by (simp add: example_repos_v1_def enumerateBuildableRepos_v1_def
      enumerateBuildableRepos_with_def example_env_def)

lemma example_enumerate_v2:
  "enumerateBuildableRepos_v2 (example_env names) ''src'' = Returns (example_repos_v2 names)"
  by (simp add: example_repos_v2_def enumerateBuildableRepos_v2_def
      enumerateBuildableRepos_with_def example_env_def)

lemma two_cycle: "(a, b) \<in> r \<Longrightarrow> (b, a) \<in> r \<Longrightarrow> \<not> acyclic r"
  by (meson acyclic_def trancl.simps)

lemma example_edges_v1:
  "edges (depGraph_v1 (example_env []) (example_repos_v1 [''a'', ''b'', ''docs'', ''broken'']))
     = [(''a'', ''base-files''), (''b'', ''base-files'')]"
  by code_simp

lemma example_edges_v2:
  "edges (depGraph_v2 (example_env []) (example_repos_v2 [''a'', ''b'', ''docs'', ''broken'']))
     = [(''a'', ''base-files''), (''a'', ''lintian-profile-vyatta''),
        (''a'', ''linux-vyatta''), (''a'', ''b''), (''b'', ''base-files''),
        (''b'', ''lintian-profile-vyatta''), (''b'', ''linux-vyatta'')]"
  by code_simp

lemma example_acyclic_v1:
  "acyclic (set (edges (depGraph_v1 (example_env []) (example_repos_v1 [''a'', ''b'', ''docs'', ''broken'']))))"
  by (rule acyclic_rank[where f = example_rank]) (auto simp: example_edges_v1 example_rank_def)

lemma example_acyclic_v2:
  "acyclic (set (edges (depGraph_v2 (example_env []) (example_repos_v2 [''a'', ''b'', ''docs'', ''broken'']))))"
  by (rule acyclic_rank[where f = example_rank]) (auto simp: example_edges_v2 example_rank_def)

text \<open>
  Claim C1. When the dependency graph that \<open>determineBuildOrder\<close> builds is acyclic,
  \<open>determineBuildOrder\<close> returns an order, and in it every edge's target comes before
  the edge's source: both are in the order and the target's position is strictly
  smaller. This holds in both variants of the program.
\<close>

theorem determineBuildOrder_dependency_first:
  "(acyclic (set (edges (depGraph_v1 env repos))) \<longrightarrow>
      (\<exists>order. determineBuildOrder_v1 env repos = Returns order
         \<and> dependency_before_dependent (depGraph_v1 env repos) order))
   \<and> (acyclic (set (edges (depGraph_v2 env repos))) \<longrightarrow>
      (\<exists>order. determineBuildOrder_v2 env repos = Returns order
         \<and> dependency_before_dependent (depGraph_v2 env repos) order))"
  unfolding determineBuildOrder_v1_def determineBuildOrder_v2_def depGraph_v1_def depGraph_v2_def
  using determineBuildOrder_with_acyclic wf_graph_depGraph_v1 wf_graph_depGraph_v2
  unfolding depGraph_v1_def depGraph_v2_def by blast

lemma example_order_v1:
  "determineBuildOrder_v1 (example_env []) (example_repos_v1 [''a'', ''b'', ''docs'', ''broken''])
     = Returns [''base-files'', ''a'', ''b'', ''broken'']"
  by code_simp

lemma example_order_v2:
  "determineBuildOrder_v2 (example_env []) (example_repos_v2 [''a'', ''b'', ''docs'', ''broken''])
     = Returns [''base-files'', ''lintian-profile-vyatta'', ''linux-vyatta'', ''b'', ''a'', ''broken'']"
  by code_simp

theorem determineBuildOrder_dependency_first_witness:
  "acyclic (set (edges (depGraph_v1 (example_env [])
       (example_repos_v1 [''a'', ''b'', ''docs'', ''broken'']))))
   \<and> determineBuildOrder_v1 (example_env []) (example_repos_v1 [''a'', ''b'', ''docs'', ''broken''])
       = Returns [''base-files'', ''a'', ''b'', ''broken'']
   \<and> dependency_before_dependent
       (depGraph_v1 (example_env []) (example_repos_v1 [''a'', ''b'', ''docs'', ''broken'']))
       [''base-files'', ''a'', ''b'', ''broken'']
   \<and> acyclic (set (edges (depGraph_v2 (example_env [])
       (example_repos_v2 [''a'', ''b'', ''docs'', ''broken'']))))
   \<and> determineBuildOrder_v2 (example_env []) (example_repos_v2 [''a'', ''b'', ''docs'', ''broken''])
       = Returns [''base-files'', ''lintian-profile-vyatta'', ''linux-vyatta'', ''b'', ''a'',
           ''broken'']
   \<and> dependency_before_dependent
       (depGraph_v2 (example_env []) (example_repos_v2 [''a'', ''b'', ''docs'', ''broken'']))
       [''base-files'', ''lintian-profile-vyatta'', ''linux-vyatta'', ''b'', ''a'', ''broken'']"
  using determineBuildOrder_dependency_first
    [of "example_env []" "example_repos_v1 [''a'', ''b'', ''docs'', ''broken'']"]
    determineBuildOrder_dependency_first
    [of "example_env []" "example_repos_v2 [''a'', ''b'', ''docs'', ''broken'']"]
    example_acyclic_v1 example_acyclic_v2
  by (simp add: example_order_v1 example_order_v2)

text \<open>
  Claim C2. When the dependency graph contains a cycle, \<open>determineBuildOrder\<close> panics
  with the cycle error in both variants: it returns no order at all, neither a partial
  nor a best-effort one. The panic ends the run: when \<open>main\<close>, run without \<open>-clone\<close>,
  gets that metadata from \<open>enumerateBuildableRepos\<close>, it panics in the state it started
  in, whether \<open>-build\<close> is set or not, so nothing was printed and nothing was built.
\<close>

theorem determineBuildOrder_cycle_panics:
  "(\<not> acyclic (set (edges (depGraph_v1 env repos))) \<longrightarrow>
      determineBuildOrder_v1 env repos = Panics ErrCycle
      \<and> (\<not> clone fl \<longrightarrow> enumerateBuildableRepos_v1 env (srcDir fl) = Returns repos \<longrightarrow>
           main_v1 fl env sys w = (Panics ErrCycle, w)))
   \<and> (\<not> acyclic (set (edges (depGraph_v2 env repos))) \<longrightarrow>
      determineBuildOrder_v2 env repos = Panics ErrCycle
      \<and> (\<not> clone fl \<longrightarrow> enumerateBuildableRepos_v2 env (srcDir fl) = Returns repos \<longrightarrow>
           main_v2 fl env sys w = (Panics ErrCycle, w)))"
proof -
  have p1: "determineBuildOrder_v1 env repos = Panics ErrCycle"
    if "\<not> acyclic (set (edges (depGraph_v1 env repos)))"
    using that determineBuildOrder_with_cyclic[of addBase_v1 env repos] wf_graph_depGraph_v1
    unfolding determineBuildOrder_v1_def depGraph_v1_def by blast
  have p2: "determineBuildOrder_v2 env repos = Panics ErrCycle"
    if "\<not> acyclic (set (edges (depGraph_v2 env repos)))"
    using that determineBuildOrder_with_cyclic[of addBase_v2 env repos] wf_graph_depGraph_v2
    unfolding determineBuildOrder_v2_def depGraph_v2_def by blast
  have m1: "main_v1 fl env sys w = (Panics ErrCycle, w)"
    if "determineBuildOrder_v1 env repos = Panics ErrCycle" "\<not> clone fl"
      "enumerateBuildableRepos_v1 env (srcDir fl) = Returns repos"
    using that by (simp add: main_v1_def and_then_def)
  have m2: "main_v2 fl env sys w = (Panics ErrCycle, w)"
    if "determineBuildOrder_v2 env repos = Panics ErrCycle" "\<not> clone fl"
      "enumerateBuildableRepos_v2 env (srcDir fl) = Returns repos"
    using that by (simp add: main_v2_def and_then_def)
  from p1 p2 m1 m2 show ?thesis by blast
qed

lemma example_cycle_v1:
  "\<not> acyclic (set (edges (depGraph_v1 (example_env [''c'', ''d'']) (example_repos_v1 [''c'', ''d'']))))"
proof (rule two_cycle)
  show "(''c'', ''d'') \<in> set (edges (depGraph_v1 (example_env [''c'', ''d'']) (example_repos_v1 [''c'', ''d''])))"
    by code_simp
  show "(''d'', ''c'') \<in> set (edges (depGraph_v1 (example_env [''c'', ''d'']) (example_repos_v1 [''c'', ''d''])))"
    by code_simp
qed

lemma example_cycle_v2:
  "\<not> acyclic (set (edges (depGraph_v2 (example_env [''c'', ''d'']) (example_repos_v2 [''c'', ''d'']))))"
proof (rule two_cycle)
  show "(''c'', ''d'') \<in> set (edges (depGraph_v2 (example_env [''c'', ''d'']) (example_repos_v2 [''c'', ''d''])))"
    by code_simp
  show "(''d'', ''c'') \<in> set (edges (depGraph_v2 (example_env [''c'', ''d'']) (example_repos_v2 [''c'', ''d''])))"
    by code_simp
qed

theorem determineBuildOrder_cycle_panics_witness:
  "\<not> acyclic (set (edges (depGraph_v1 (example_env [''c'', ''d''])
       (example_repos_v1 [''c'', ''d'']))))
   \<and> determineBuildOrder_v1 (example_env [''c'', ''d'']) (example_repos_v1 [''c'', ''d''])
       = Panics ErrCycle
   \<and> \<not> clone (example_flags\<lparr>build := True\<rparr>)
   \<and> enumerateBuildableRepos_v1 (example_env [''c'', ''d''])
         (srcDir (example_flags\<lparr>build := True\<rparr>)) = Returns (example_repos_v1 [''c'', ''d''])
   \<and> main_v1 (example_flags\<lparr>build := True\<rparr>) (example_env [''c'', ''d'']) example_sys
         example_world = (Panics ErrCycle, example_world)
   \<and> \<not> acyclic (set (edges (depGraph_v2 (example_env [''c'', ''d''])
       (example_repos_v2 [''c'', ''d'']))))
   \<and> determineBuildOrder_v2 (example_env [''c'', ''d'']) (example_repos_v2 [''c'', ''d''])
       = Panics ErrCycle
   \<and> enumerateBuildableRepos_v2 (example_env [''c'', ''d''])
         (srcDir (example_flags\<lparr>build := True\<rparr>)) = Returns (example_repos_v2 [''c'', ''d''])
   \<and> main_v2 (example_flags\<lparr>build := True\<rparr>) (example_env [''c'', ''d'']) example_sys
         example_world = (Panics ErrCycle, example_world)"
proof -
  have f: "\<not> clone (example_flags\<lparr>build := True\<rparr>)"
    "srcDir (example_flags\<lparr>build := True\<rparr>) = ''src''"
    by (simp_all add: example_flags_def)
  from determineBuildOrder_cycle_panics
      [of "example_env [''c'', ''d'']" "example_repos_v1 [''c'', ''d'']"
          "example_flags\<lparr>build := True\<rparr>" example_sys example_world]
    determineBuildOrder_cycle_panics
      [of "example_env [''c'', ''d'']" "example_repos_v2 [''c'', ''d'']"
          "example_flags\<lparr>build := True\<rparr>" example_sys example_world]
    example_cycle_v1 example_cycle_v2 f example_enumerate_v1[of "[''c'', ''d'']"]
    example_enumerate_v2[of "[''c'', ''d'']"]
  show ?thesis by simp
qed

section \<open>Properties of the output multiplexer\<close>

lemma Pipe_ok:
  "Pipe_error sys (pipes w) = None \<Longrightarrow>
   Pipe sys w = (Inr (PipeR (pipes w), PipeW (pipes w)),
                 w\<lparr>pipes := Suc (pipes w), pipe_buf := (pipe_buf w)(pipes w := [])\<rparr>)"
  by (simp add: Pipe_def)

lemma OpenFile_fails:
  "OpenFile_error sys name = Some e \<Longrightarrow> OpenFile sys name flags w = (Inl e, w)"
  by (simp add: OpenFile_def)

lemma OpenFile_ok:
  "OpenFile_error sys name = None \<Longrightarrow> O_CREATE \<in> set flags \<Longrightarrow>
   OpenFile sys name flags w =
     (Inr (RegularFile name),
      w\<lparr>files := (files w)(name \<mapsto>
            (case files w name of None \<Rightarrow> []
             | Some content \<Rightarrow> if O_TRUNC \<in> set flags then [] else content)),
         offset := (offset w)(name := 0)\<rparr>)"
  by (simp add: OpenFile_def split: option.splits)

lemma teeAndEval_flags_open_fails:
  assumes "Pipe_error sys (pipes w) = None"
    and "OpenFile_error sys (Join env [logdir, repo @ ''.log'']) = Some e"
  shows "teeAndEval_flags flags env sys logdir repo fn w = (Returns (Some e), redirected w)"
  using assms
  by (simp add: teeAndEval_flags_def Let_def Pipe_ok OpenFile_fails redirected_def)

text \<open>
  Claim C10. When the pipe has been created and opening the per-unit log file fails
  with \<open>e\<close>, \<open>teeAndEval\<close> returns \<open>e\<close>, in both variants. The state it leaves is the
  state at entry with the pipe created and both streams redirected: \<open>fn\<close> does not occur
  in the result, which is the same for every \<open>fn\<close>, so the build function was not called.
\<close>

theorem teeAndEval_open_failure_skips_build:
  assumes "Pipe_error sys (pipes w) = None"
    and "OpenFile_error sys (Join env [logdir, repo @ ''.log'']) = Some e"
  shows "teeAndEval_v1 env sys logdir repo fn w = (Returns (Some e), redirected w)
       \<and> teeAndEval_v2 env sys logdir repo fn w = (Returns (Some e), redirected w)"
  using assms by (simp add: teeAndEval_v1_def teeAndEval_v2_def teeAndEval_flags_open_fails)

lemma teeAndEval_flags_returns:
  assumes p: "Pipe_error sys (pipes w) = None"
    and o: "OpenFile_error sys (Join env [logdir, repo @ ''.log'']) = None"
    and c: "O_CREATE \<in> set flags"
    and f: "fn (fn_entry flags env sys logdir repo w) = (Returns rval, w4)"
  shows "teeAndEval_flags flags env sys logdir repo fn w =
     (Returns rval,
      Copy [os_Stdout w, RegularFile (Join env [logdir, repo @ ''.log''])] (PipeR (pipes w))
        (w4\<lparr>os_Stdout := os_Stdout w, os_Stderr := os_Stderr w\<rparr>))"
proof -
  let ?name = "Join env [logdir, repo @ ''.log'']"
  have r: "w\<lparr>pipes := Suc (pipes w), pipe_buf := (pipe_buf w)(pipes w := []),
       os_Stdout := PipeW (pipes w), os_Stderr := PipeW (pipes w)\<rparr> = redirected w"
    by (simp add: redirected_def)
  obtain w3 where w3: "OpenFile sys ?name flags (redirected w) = (Inr (RegularFile ?name), w3)"
    using OpenFile_ok[OF o c] by blast
  then have e: "fn_entry flags env sys logdir repo w = w3"
    by (simp add: fn_entry_def)
  show ?thesis
    unfolding teeAndEval_flags_def Let_def Pipe_ok[OF p]
    using f by (simp add: r w3 e and_then_def)
qed

lemma os_Stdout_Write [simp]: "os_Stdout (Write f d w) = os_Stdout w"
  by (simp add: Write_def split: File.splits option.splits)

lemma os_Stderr_Write [simp]: "os_Stderr (Write f d w) = os_Stderr w"
  by (simp add: Write_def split: File.splits option.splits)

lemma pipes_Write [simp]: "pipes (Write f d w) = pipes w"
  by (simp add: Write_def split: File.splits option.splits)

lemma dirs_Write [simp]: "dirs (Write f d w) = dirs w"
  by (simp add: Write_def split: File.splits option.splits)

lemma pipe_buf_Write:
  "pipe_buf (Write f d w) i = (if f = PipeW i then pipe_buf w i @ d else pipe_buf w i)"
  by (simp add: Write_def split: File.splits option.splits)

lemma terminal_out_Write:
  "terminal_out (Write f d w) = (if f = Terminal_out then terminal_out w @ d else terminal_out w)"
  by (simp add: Write_def split: File.splits option.splits)

lemma terminal_err_Write:
  "terminal_err (Write f d w) = (if f = Terminal_err then terminal_err w @ d else terminal_err w)"
  by (simp add: Write_def split: File.splits option.splits)

lemma files_Write:
  "files (Write f d w) name =
     (case files w name of
        None \<Rightarrow> None
      | Some c \<Rightarrow> if f = RegularFile name then Some (overwrite c (offset w name) d) else Some c)"
  by (auto simp: Write_def split: File.splits option.splits)

lemma offset_Write:
  "offset (Write f d w) name =
     (if f = RegularFile name \<and> files w name \<noteq> None then offset w name + length d
      else offset w name)"
  by (auto simp: Write_def split: File.splits option.splits)

lemma Copy_tee:
  "Copy [out, outf] (PipeR i) w =
     Write outf (pipe_buf w i) (Write out (pipe_buf w i) (w\<lparr>pipe_buf := (pipe_buf w)(i := [])\<rparr>))"
  by (simp add: Copy_def Let_def)

text \<open>
  Claim C8. When the pipe and the log file have been opened (each variant's flags
  include \<open>O_CREATE\<close>) and the build function returns \<open>rval\<close>, whatever \<open>rval\<close> is,
  \<open>teeAndEval\<close> returns \<open>rval\<close> in a state where \<open>os.Stdout\<close> and \<open>os.Stderr\<close> are what
  they were at entry and the pipe holds no unread byte; when the stream at entry was the
  terminal, everything the build function left in the pipe has reached the terminal and
  the log file.
\<close>

theorem teeAndEval_restores_and_drains:
  assumes "Pipe_error sys (pipes w) = None"
    and "OpenFile_error sys (Join env [logdir, repo @ ''.log'']) = None"
    and "O_CREATE \<in> set flags"
    and "fn (fn_entry flags env sys logdir repo w) = (Returns rval, w4)"
  shows "\<exists>w'. teeAndEval_flags flags env sys logdir repo fn w = (Returns rval, w')
     \<and> os_Stdout w' = os_Stdout w \<and> os_Stderr w' = os_Stderr w
     \<and> (os_Stdout w \<noteq> PipeW (pipes w) \<longrightarrow> pipe_buf w' (pipes w) = [])
     \<and> (os_Stdout w = Terminal_out \<longrightarrow>
          terminal_out w' = terminal_out w4 @ pipe_buf w4 (pipes w)
        \<and> (\<forall>c. files w4 (Join env [logdir, repo @ ''.log'']) = Some c \<longrightarrow>
             files w' (Join env [logdir, repo @ ''.log''])
               = Some (overwrite c (offset w4 (Join env [logdir, repo @ ''.log'']))
                        (pipe_buf w4 (pipes w)))))"
  unfolding teeAndEval_flags_returns[where fn = fn, OF assms] Copy_tee
  by (simp add: pipe_buf_Write terminal_out_Write files_Write offset_Write)

theorem teeAndEval_open_failure_skips_build_witness:
  "Pipe_error example_sys (pipes example_world) = None
   \<and> OpenFile_error example_sys (Join (example_env []) [''log'', ''locked'' @ ''.log''])
       = Some (ErrExternal ''permission denied'')
   \<and> teeAndEval_v1 (example_env []) example_sys ''log'' ''locked''
         (buildRepo_v1 (example_env []) example_sys ''pkg'' ''src'' ''locked'' ''latest'')
         example_world
       = (Returns (Some (ErrExternal ''permission denied'')), redirected example_world)
   \<and> teeAndEval_v2 (example_env []) example_sys ''log'' ''locked''
         (buildRepo_v2 (example_env []) example_sys ''pkg'' ''src'' ''locked'' ''img''
            ''debian10-bootstrap'' False)
         example_world
       = (Returns (Some (ErrExternal ''permission denied'')), redirected example_world)"
  using teeAndEval_open_failure_skips_build
      [of example_sys example_world "example_env []" "''log''" "''locked''"
          "ErrExternal ''permission denied''"
          "buildRepo_v1 (example_env []) example_sys ''pkg'' ''src'' ''locked'' ''latest''"]
    teeAndEval_open_failure_skips_build
      [of example_sys example_world "example_env []" "''log''" "''locked''"
          "ErrExternal ''permission denied''"
          "buildRepo_v2 (example_env []) example_sys ''pkg'' ''src'' ''locked'' ''img''
            ''debian10-bootstrap'' False"]
  by (simp add: example_sys_def example_world_def example_env_def)

lemma example_fn_v2_fst:
  "fst (buildRepo_v2 (example_env []) example_sys ''pkg'' ''src'' ''a'' ''img'' ''v'' False
     (fn_entry [O_RDWR, O_CREATE, O_TRUNC] (example_env []) example_sys ''log'' ''a'' example_world))
     = Returns None"
  by code_simp

lemma example_fn_v2:
  "buildRepo_v2 (example_env []) example_sys ''pkg'' ''src'' ''a'' ''img'' ''v'' False
     (fn_entry [O_RDWR, O_CREATE, O_TRUNC] (example_env []) example_sys ''log'' ''a'' example_world)
   = (Returns None,
      snd (buildRepo_v2 (example_env []) example_sys ''pkg'' ''src'' ''a'' ''img'' ''v'' False
        (fn_entry [O_RDWR, O_CREATE, O_TRUNC] (example_env []) example_sys ''log'' ''a''
           example_world)))"
  using example_fn_v2_fst by (metis prod.collapse)

lemma example_fn_v2_output:
  "terminal_out (snd (buildRepo_v2 (example_env []) example_sys ''pkg'' ''src'' ''a'' ''img'' ''v''
       False (fn_entry [O_RDWR, O_CREATE, O_TRUNC] (example_env []) example_sys ''log'' ''a''
           example_world))) = []"
  "pipe_buf (snd (buildRepo_v2 (example_env []) example_sys ''pkg'' ''src'' ''a'' ''img'' ''v''
       False (fn_entry [O_RDWR, O_CREATE, O_TRUNC] (example_env []) example_sys ''log'' ''a''
           example_world))) 0 = ''Building a'' @ newline @ ''ok'' @ newline"
  "files (snd (buildRepo_v2 (example_env []) example_sys ''pkg'' ''src'' ''a'' ''img'' ''v''
       False (fn_entry [O_RDWR, O_CREATE, O_TRUNC] (example_env []) example_sys ''log'' ''a''
           example_world))) ''log/a.log'' = Some []"
  "offset (snd (buildRepo_v2 (example_env []) example_sys ''pkg'' ''src'' ''a'' ''img'' ''v''
       False (fn_entry [O_RDWR, O_CREATE, O_TRUNC] (example_env []) example_sys ''log'' ''a''
           example_world))) ''log/a.log'' = 0"
  by code_simp+

lemma example_world_fields:
  "os_Stdout example_world = Terminal_out" "os_Stderr example_world = Terminal_err"
  "pipes example_world = 0"
  by (simp_all add: example_world_def)

theorem teeAndEval_restores_and_drains_witness:
  "Pipe_error example_sys (pipes example_world) = None
   \<and> OpenFile_error example_sys (Join (example_env []) [''log'', ''a'' @ ''.log'']) = None
   \<and> O_CREATE \<in> set [O_RDWR, O_CREATE, O_TRUNC]
   \<and> fst (buildRepo_v2 (example_env []) example_sys ''pkg'' ''src'' ''a'' ''img'' ''v'' False
        (fn_entry [O_RDWR, O_CREATE, O_TRUNC] (example_env []) example_sys ''log'' ''a''
           example_world)) = Returns None
   \<and> (\<exists>w'. teeAndEval_flags [O_RDWR, O_CREATE, O_TRUNC] (example_env []) example_sys ''log'' ''a''
          (buildRepo_v2 (example_env []) example_sys ''pkg'' ''src'' ''a'' ''img'' ''v'' False)
          example_world = (Returns None, w')
        \<and> os_Stdout w' = Terminal_out \<and> os_Stderr w' = Terminal_err
        \<and> pipe_buf w' 0 = []
        \<and> terminal_out w' = ''Building a'' @ newline @ ''ok'' @ newline
        \<and> files w' ''log/a.log'' = Some (''Building a'' @ newline @ ''ok'' @ newline))"
proof -
  have h1: "Pipe_error example_sys (pipes example_world) = None"
    by (simp add: example_sys_def)
  have h0: "Pipe_error example_sys 0 = None"
    by (simp add: example_sys_def)
  have h2: "OpenFile_error example_sys (Join (example_env []) [''log'', ''a'' @ ''.log'']) = None"
    by (simp add: example_sys_def example_env_def)
  have h3: "O_CREATE \<in> set [O_RDWR, O_CREATE, O_TRUNC]" by simp
  have n: "Join (example_env []) [''log'', ''a'' @ ''.log''] = ''log/a.log''"
    by (simp add: example_env_def)
  from teeAndEval_restores_and_drains[where fn = "buildRepo_v2 (example_env []) example_sys
        ''pkg'' ''src'' ''a'' ''img'' ''v'' False", OF h1 h2 h3 example_fn_v2]
  have "\<exists>w'. teeAndEval_flags [O_RDWR, O_CREATE, O_TRUNC] (example_env []) example_sys ''log'' ''a''
          (buildRepo_v2 (example_env []) example_sys ''pkg'' ''src'' ''a'' ''img'' ''v'' False)
          example_world = (Returns None, w')
        \<and> os_Stdout w' = Terminal_out \<and> os_Stderr w' = Terminal_err
        \<and> pipe_buf w' 0 = []
        \<and> terminal_out w' = ''Building a'' @ newline @ ''ok'' @ newline
        \<and> files w' ''log/a.log'' = Some (''Building a'' @ newline @ ''ok'' @ newline)"
    unfolding n example_world_fields
    by (simp add: example_fn_v2_output overwrite_def)
  with h1 h2 h3 example_fn_v2_fst show ?thesis by blast
qed

section \<open>Properties of the command\<close>

lemma main_v1_dry:
  assumes "\<not> clone fl" "\<not> build fl"
  shows "main_v1 fl env sys w =
     (case enumerateBuildableRepos_v1 env (srcDir fl) of
        Returns repos \<Rightarrow>
          (case determineBuildOrder_v1 env repos of
             Returns buildOrder \<Rightarrow> (Returns (), Write (os_Stdout w) (buildOrderLine buildOrder) w)
           | Panics e \<Rightarrow> (Panics e, w)
           | Exits n \<Rightarrow> (Exits n, w))
      | Panics e \<Rightarrow> (Panics e, w)
      | Exits n \<Rightarrow> (Exits n, w))"
  using assms by (simp add: main_v1_def and_then_def Let_def split: outcome.splits)

lemma main_v2_dry:
  assumes "\<not> clone fl" "\<not> build fl"
  shows "main_v2 fl env sys w =
     (case enumerateBuildableRepos_v2 env (srcDir fl) of
        Returns repos \<Rightarrow>
          (case determineBuildOrder_v2 env repos of
             Returns buildOrder \<Rightarrow> (Returns (), Write (os_Stdout w) (buildOrderLine buildOrder) w)
           | Panics e \<Rightarrow> (Panics e, w)
           | Exits n \<Rightarrow> (Exits n, w))
      | Panics e \<Rightarrow> (Panics e, w)
      | Exits n \<Rightarrow> (Exits n, w))"
  using assms by (simp add: main_v2_def and_then_def Let_def split: outcome.splits)

lemma Write_terminal_frame:
  "files (Write Terminal_out d w) = files w" "dirs (Write Terminal_out d w) = dirs w"
  "pipes (Write Terminal_out d w) = pipes w"
  "terminal_out (Write Terminal_out d w) = terminal_out w @ d"
  by (simp_all add: Write_def)

text \<open>
  Claim C9. With neither \<open>-clone\<close> nor \<open>-build\<close>, started with its standard output on the
  terminal, \<open>main\<close> creates no file, no directory and no pipe, and its result and final
  state are the same whatever the build engine and the other system calls would do, so
  none of them is called. When the metadata index and the build order are computed
  without a panic, \<open>main\<close> returns and the terminal has received the line with the build
  order. This holds in both variants.
\<close>

theorem main_without_flags_only_prints:
  assumes "\<not> clone fl" and "\<not> build fl" and "os_Stdout w = Terminal_out"
  shows "(\<exists>out w'. main_v1 fl env sys w = (out, w')
            \<and> files w' = files w \<and> dirs w' = dirs w \<and> pipes w' = pipes w
            \<and> (\<forall>sys'. main_v1 fl env sys' w = (out, w'))
            \<and> (\<forall>repos buildOrder.
                  enumerateBuildableRepos_v1 env (srcDir fl) = Returns repos
                  \<longrightarrow> determineBuildOrder_v1 env repos = Returns buildOrder
                  \<longrightarrow> out = Returns ()
                      \<and> terminal_out w' = terminal_out w @ buildOrderLine buildOrder))
       \<and> (\<exists>out w'. main_v2 fl env sys w = (out, w')
            \<and> files w' = files w \<and> dirs w' = dirs w \<and> pipes w' = pipes w
            \<and> (\<forall>sys'. main_v2 fl env sys' w = (out, w'))
            \<and> (\<forall>repos buildOrder.
                  enumerateBuildableRepos_v2 env (srcDir fl) = Returns repos
                  \<longrightarrow> determineBuildOrder_v2 env repos = Returns buildOrder
                  \<longrightarrow> out = Returns ()
                      \<and> terminal_out w' = terminal_out w @ buildOrderLine buildOrder))"
proof
  show "\<exists>out w'. main_v1 fl env sys w = (out, w')
            \<and> files w' = files w \<and> dirs w' = dirs w \<and> pipes w' = pipes w
            \<and> (\<forall>sys'. main_v1 fl env sys' w = (out, w'))
            \<and> (\<forall>repos buildOrder.
                  enumerateBuildableRepos_v1 env (srcDir fl) = Returns repos
                  \<longrightarrow> determineBuildOrder_v1 env repos = Returns buildOrder
                  \<longrightarrow> out = Returns ()
                      \<and> terminal_out w' = terminal_out w @ buildOrderLine buildOrder)"
    unfolding main_v1_dry[OF assms(1,2)] assms(3)
    by (auto simp: Write_terminal_frame split: outcome.splits)
next
  show "\<exists>out w'. main_v2 fl env sys w = (out, w')
            \<and> files w' = files w \<and> dirs w' = dirs w \<and> pipes w' = pipes w
            \<and> (\<forall>sys'. main_v2 fl env sys' w = (out, w'))
            \<and> (\<forall>repos buildOrder.
                  enumerateBuildableRepos_v2 env (srcDir fl) = Returns repos
                  \<longrightarrow> determineBuildOrder_v2 env repos = Returns buildOrder
                  \<longrightarrow> out = Returns ()
                      \<and> terminal_out w' = terminal_out w @ buildOrderLine buildOrder)"
    unfolding main_v2_dry[OF assms(1,2)] assms(3)
    by (auto simp: Write_terminal_frame split: outcome.splits)
qed

lemma example_main_order_v1:
  "determineBuildOrder_v1 (example_env [''a'', ''b'', ''docs'', ''broken''])
     (example_repos_v1 [''a'', ''b'', ''docs'', ''broken''])
   = Returns [''base-files'', ''a'', ''b'', ''broken'']"
  by code_simp

lemma example_main_order_v2:
  "determineBuildOrder_v2 (example_env [''a'', ''b'', ''docs'', ''broken''])
     (example_repos_v2 [''a'', ''b'', ''docs'', ''broken''])
   = Returns [''base-files'', ''lintian-profile-vyatta'', ''linux-vyatta'', ''b'', ''a'', ''broken'']"
  by code_simp

lemma example_lines:
  "buildOrderLine [''base-files'', ''a'', ''b'', ''broken'']
     = ''Build order (4 repos): [base-files a b broken]'' @ newline"
  "buildOrderLine [''base-files'', ''lintian-profile-vyatta'', ''linux-vyatta'', ''b'', ''a'',
       ''broken'']
     = ''Build order (6 repos): [base-files lintian-profile-vyatta linux-vyatta b a broken]''
         @ newline"
  by code_simp+

theorem main_without_flags_only_prints_witness:
  "\<not> clone example_flags \<and> \<not> build example_flags \<and> os_Stdout example_world = Terminal_out
   \<and> (\<exists>w'. main_v1 example_flags (example_env [''a'', ''b'', ''docs'', ''broken'']) example_sys
              example_world = (Returns (), w')
          \<and> files w' = files example_world \<and> dirs w' = dirs example_world
          \<and> pipes w' = pipes example_world
          \<and> terminal_out w' = ''Build order (4 repos): [base-files a b broken]'' @ newline)
   \<and> (\<exists>w'. main_v2 example_flags (example_env [''a'', ''b'', ''docs'', ''broken'']) example_sys
              example_world = (Returns (), w')
          \<and> files w' = files example_world \<and> dirs w' = dirs example_world
          \<and> pipes w' = pipes example_world
          \<and> terminal_out w'
              = ''Build order (6 repos): [base-files lintian-profile-vyatta linux-vyatta b a broken]''
                  @ newline)"
proof -
  have h: "\<not> clone example_flags" "\<not> build example_flags" "os_Stdout example_world = Terminal_out"
    by (simp_all add: example_flags_def example_world_def)
  have s: "srcDir example_flags = ''src''" "terminal_out example_world = []"
    by (simp_all add: example_flags_def example_world_def)
  from main_without_flags_only_prints[OF h,
      of "example_env [''a'', ''b'', ''docs'', ''broken'']" example_sys]
  show ?thesis
    unfolding s
    using h example_enumerate_v1 example_enumerate_v2 example_main_order_v1 example_main_order_v2
    by (fastforce simp: example_lines)
qed

section \<open>Properties of the build executor\<close>

lemma Write_PipeW_twice:
  "Write (PipeW i) b (Write (PipeW i) a w) = Write (PipeW i) (a @ b) w"
  by (simp add: Write_def)

lemma runBuilder_piped:
  assumes "os_Stdout w = PipeW i"
  shows "runBuilder sys repo opts w =
     (Returns (map_option (buildError repo) (engineResult sys opts)),
      Write (PipeW i) (engineOutput sys opts) w)"
proof (cases "MakeBuilder sys opts")
  case (Pair out1 r1)
  show ?thesis
  proof (cases r1)
    case (Some err)
    with Pair assms show ?thesis
      by (simp add: runBuilder_def engineResult_def engineOutput_def)
  next
    case None
    obtain out2 r2 where b: "Build sys opts = (out2, r2)" by (cases "Build sys opts")
    with Pair None assms show ?thesis
      by (cases r2) (simp_all add: runBuilder_def engineResult_def engineOutput_def Let_def
          Write_PipeW_twice)
  qed
qed

lemma resolvePath_ok: "Abs sys p = Inr q \<Longrightarrow> resolvePath sys p w = (Returns q, w)"
  by (simp add: resolvePath_def)

lemma buildRepo_v1_piped:
  assumes a: "\<forall>p. Abs sys p = Inr (absf p)" and s: "os_Stdout w = PipeW i"
  shows "buildRepo_v1 env sys debDir baseDir repo ver w =
     (Returns (map_option (buildError repo)
        (engineResult sys (options_v1 env absf debDir baseDir ver repo))),
      Write (PipeW i) (''Building '' @ repo @ newline
        @ engineOutput sys (options_v1 env absf debDir baseDir ver repo)) w)"
proof -
  define W where "W = Println (''Building '' @ repo) w"
  have p: "W = Write (PipeW i) (''Building '' @ repo @ newline) w"
    using s by (simp add: W_def Println_def)
  have s': "os_Stdout W = PipeW i"
    using s by (simp add: p Write_def)
  have "buildRepo_v1 env sys debDir baseDir repo ver w =
      runBuilder sys repo (options_v1 env absf debDir baseDir ver repo) W"
    unfolding buildRepo_v1_def W_def[symmetric]
    by (simp add: resolvePath_ok a and_then_def options_v1_def)
  also have "\<dots> = (Returns (map_option (buildError repo)
        (engineResult sys (options_v1 env absf debDir baseDir ver repo))),
      Write (PipeW i) (engineOutput sys (options_v1 env absf debDir baseDir ver repo)) W)"
    by (rule runBuilder_piped[OF s'])
  finally show ?thesis
    unfolding p Write_PipeW_twice by simp
qed

lemma buildRepo_v2_piped:
  assumes a: "\<forall>p. Abs sys p = Inr (absf p)" and s: "os_Stdout w = PipeW i"
  shows "buildRepo_v2 env sys debDir baseDir repo img ver loc w =
     (Returns (map_option (buildError repo)
        (engineResult sys (options_v2 env absf debDir baseDir img ver loc repo))),
      Write (PipeW i) (''Building '' @ repo @ newline
        @ engineOutput sys (options_v2 env absf debDir baseDir img ver loc repo)) w)"
proof -
  define W where "W = Println (''Building '' @ repo) w"
  have p: "W = Write (PipeW i) (''Building '' @ repo @ newline) w"
    using s by (simp add: W_def Println_def)
  have s': "os_Stdout W = PipeW i"
    using s by (simp add: p Write_def)
  have "buildRepo_v2 env sys debDir baseDir repo img ver loc w =
      runBuilder sys repo (options_v2 env absf debDir baseDir img ver loc repo) W"
    unfolding buildRepo_v2_def W_def[symmetric]
    by (simp add: resolvePath_ok a and_then_def options_v2_def)
  also have "\<dots> = (Returns (map_option (buildError repo)
        (engineResult sys (options_v2 env absf debDir baseDir img ver loc repo))),
      Write (PipeW i) (engineOutput sys (options_v2 env absf debDir baseDir img ver loc repo)) W)"
    by (rule runBuilder_piped[OF s'])
  finally show ?thesis
    unfolding p Write_PipeW_twice by simp
qed

lemma fn_entry_ok:
  assumes "OpenFile_error sys (Join env [logdir, repo @ ''.log'']) = None" "O_CREATE \<in> set flags"
  shows "fn_entry flags env sys logdir repo w =
     (redirected w)\<lparr>files := (files w)(Join env [logdir, repo @ ''.log''] \<mapsto>
            (case files w (Join env [logdir, repo @ ''.log'']) of None \<Rightarrow> []
             | Some content \<Rightarrow> if O_TRUNC \<in> set flags then [] else content)),
         offset := (offset w)(Join env [logdir, repo @ ''.log''] := 0)\<rparr>"
  by (simp add: fn_entry_def OpenFile_ok[OF assms] redirected_def)

lemma tee_step:
  assumes p: "Pipe_error sys (pipes w) = None"
    and o: "OpenFile_error sys (Join env [logdir, repo @ ''.log'']) = None"
    and c: "O_CREATE \<in> set flags"
    and t: "os_Stdout w = Terminal_out"
    and f: "\<And>w0 i. os_Stdout w0 = PipeW i \<Longrightarrow> fn w0 = (Returns res, Write (PipeW i) out w0)"
  shows "\<exists>w'. teeAndEval_flags flags env sys logdir repo fn w = (Returns res, w')
     \<and> os_Stdout w' = Terminal_out \<and> os_Stderr w' = os_Stderr w
     \<and> terminal_out w' = terminal_out w @ out \<and> terminal_err w' = terminal_err w
     \<and> pipes w' = Suc (pipes w) \<and> dirs w' = dirs w
     \<and> (\<forall>name. name \<noteq> Join env [logdir, repo @ ''.log''] \<longrightarrow>
           files w' name = files w name \<and> offset w' name = offset w name)
     \<and> files w' (Join env [logdir, repo @ ''.log'']) =
          Some (overwrite (case files w (Join env [logdir, repo @ ''.log'']) of None \<Rightarrow> []
             | Some content \<Rightarrow> if O_TRUNC \<in> set flags then [] else content) 0 out)"
proof -
  let ?e = "fn_entry flags env sys logdir repo w"
  have e: "os_Stdout ?e = PipeW (pipes w)"
    by (simp add: fn_entry_ok[OF o c] redirected_def)
  have r: "fn ?e = (Returns res, Write (PipeW (pipes w)) out ?e)"
    by (rule f[OF e])
  show ?thesis
    unfolding teeAndEval_flags_returns[where fn = fn, OF p o c r] Copy_tee t
    by (simp add: fn_entry_ok[OF o c] redirected_def Write_def)
qed

lemma overwrite_append:
  "overwrite (overwrite c 0 a) (length a) b = overwrite c 0 (a @ b)"
  by (simp add: overwrite_def add.commute)

lemma overwrite_empty: "overwrite [] 0 a = a"
  by (simp add: overwrite_def)

lemma Error_errList_Cons: "Error (errList (e # es)) = Error e @ newline @ Error (errList es)"
  by (simp add: newline_def)

lemma Error_errList_Nil: "Error (errList []) = []"
  by simp

lemma worker_run:
  assumes pp: "\<forall>n. Pipe_error sys n = None"
    and c: "O_CREATE \<in> set flags"
    and f: "\<And>repo w0 i. os_Stdout w0 = PipeW i \<Longrightarrow>
              fn repo w0 = (Returns (res repo), Write (PipeW i) (out repo) w0)"
  shows "(\<forall>repo \<in> set repos. OpenFile_error sys (Join env [logdir, repo @ ''.log'']) = None
            \<and> Join env [logdir, repo @ ''.log''] \<noteq> flog)
     \<Longrightarrow> os_Stdout w = Terminal_out
     \<Longrightarrow> files w flog = Some (overwrite c0 0 pre) \<Longrightarrow> offset w flog = length pre
     \<Longrightarrow> \<exists>w'. worker (\<lambda>repo. teeAndEval_flags flags env sys logdir repo (fn repo))
                (RegularFile flog) repos errs w
              = (Returns (errs @ List.map_filter res repos), w')
          \<and> os_Stdout w' = Terminal_out
          \<and> terminal_out w' = terminal_out w @ concat (map out repos)
          \<and> files w' flog = Some (overwrite c0 0 (pre @ Error (errList (List.map_filter res repos))))
          \<and> offset w' flog = length pre + length (Error (errList (List.map_filter res repos)))
          \<and> dirs w' = dirs w
          \<and> (\<forall>repo \<in> set repos. files w' (Join env [logdir, repo @ ''.log'']) \<noteq> None)
          \<and> (\<forall>name. files w name \<noteq> None \<longrightarrow> files w' name \<noteq> None)"
proof (induction repos arbitrary: w errs pre)
  case Nil
  then show ?case by (simp add: List.map_filter_simps)
next
  case (Cons repo repos)
  let ?ulog = "Join env [logdir, repo @ ''.log'']"
  from Cons.prems(1) have o: "OpenFile_error sys ?ulog = None" and ne: "?ulog \<noteq> flog"
    and rest: "\<forall>r \<in> set repos. OpenFile_error sys (Join env [logdir, r @ ''.log'']) = None
            \<and> Join env [logdir, r @ ''.log''] \<noteq> flog"
    by simp_all
  from pp have p: "Pipe_error sys (pipes w) = None" by simp
  from tee_step[where fn = "fn repo" and res = "res repo" and out = "out repo",
      OF p o c Cons.prems(2) f]
  obtain w1 where t: "teeAndEval_flags flags env sys logdir repo (fn repo) w = (Returns (res repo), w1)"
    and s1: "os_Stdout w1 = Terminal_out"
    and t1: "terminal_out w1 = terminal_out w @ out repo"
    and d1: "dirs w1 = dirs w"
    and fr: "\<forall>name. name \<noteq> ?ulog \<longrightarrow> files w1 name = files w name \<and> offset w1 name = offset w name"
    and u1: "files w1 ?ulog \<noteq> None"
    by auto
  from fr ne Cons.prems(3,4) have fl1: "files w1 flog = Some (overwrite c0 0 pre)"
    and of1: "offset w1 flog = length pre"
    by auto
  from fr u1 have mono1: "\<forall>name. files w name \<noteq> None \<longrightarrow> files w1 name \<noteq> None"
    by metis
  show ?case
  proof (cases "res repo")
    case None
    from Cons.IH[OF rest s1 fl1 of1, of errs]
    obtain w' where w': "worker (\<lambda>repo. teeAndEval_flags flags env sys logdir repo (fn repo))
                (RegularFile flog) repos errs w1
              = (Returns (errs @ List.map_filter res repos), w')"
          "os_Stdout w' = Terminal_out"
          "terminal_out w' = terminal_out w1 @ concat (map out repos)"
          "files w' flog = Some (overwrite c0 0 (pre @ Error (errList (List.map_filter res repos))))"
          "offset w' flog = length pre + length (Error (errList (List.map_filter res repos)))"
          "dirs w' = dirs w1"
          "\<forall>repo \<in> set repos. files w' (Join env [logdir, repo @ ''.log'']) \<noteq> None"
          "\<forall>name. files w1 name \<noteq> None \<longrightarrow> files w' name \<noteq> None"
      by blast
    have "worker (\<lambda>repo. teeAndEval_flags flags env sys logdir repo (fn repo))
                (RegularFile flog) (repo # repos) errs w
          = (Returns (errs @ List.map_filter res (repo # repos)), w')"
      using t None w'(1) by (simp add: List.map_filter_simps)
    moreover have "files w' ?ulog \<noteq> None" using u1 w'(8) by blast
    moreover have "\<forall>name. files w name \<noteq> None \<longrightarrow> files w' name \<noteq> None"
      using mono1 w'(8) by blast
    ultimately show ?thesis
      using w'(2-7) None t1 d1 by (auto simp: List.map_filter_simps)
  next
    case (Some e)
    let ?line = "Error e @ newline"
    let ?w2 = "Fprintln (RegularFile flog) (Error e) w1"
    have s2: "os_Stdout ?w2 = Terminal_out" using s1 by (simp add: Fprintln_def Write_def fl1)
    have fl2: "files ?w2 flog = Some (overwrite c0 0 (pre @ ?line))"
      using fl1 of1 by (simp add: Fprintln_def Write_def overwrite_append)
    have of2: "offset ?w2 flog = length (pre @ ?line)"
      using fl1 of1 by (simp add: Fprintln_def Write_def)
    have t2: "terminal_out ?w2 = terminal_out w1" "dirs ?w2 = dirs w1"
      by (simp_all add: Fprintln_def Write_def fl1)
    have mono2: "\<forall>name. files w1 name \<noteq> None \<longrightarrow> files ?w2 name \<noteq> None"
      by (simp add: Fprintln_def Write_def fl1)
    from Cons.IH[OF rest s2 fl2 of2, of "errs @ [e]"]
    obtain w' where w': "worker (\<lambda>repo. teeAndEval_flags flags env sys logdir repo (fn repo))
                (RegularFile flog) repos (errs @ [e]) ?w2
              = (Returns ((errs @ [e]) @ List.map_filter res repos), w')"
          "os_Stdout w' = Terminal_out"
          "terminal_out w' = terminal_out ?w2 @ concat (map out repos)"
          "files w' flog = Some (overwrite c0 0 ((pre @ ?line) @ Error (errList (List.map_filter res repos))))"
          "offset w' flog = length (pre @ ?line) + length (Error (errList (List.map_filter res repos)))"
          "dirs w' = dirs ?w2"
          "\<forall>repo \<in> set repos. files w' (Join env [logdir, repo @ ''.log'']) \<noteq> None"
          "\<forall>name. files ?w2 name \<noteq> None \<longrightarrow> files w' name \<noteq> None"
      by blast
    have m: "List.map_filter res (repo # repos) = e # List.map_filter res repos"
      using Some by (simp add: List.map_filter_simps)
    have "worker (\<lambda>repo. teeAndEval_flags flags env sys logdir repo (fn repo))
                (RegularFile flog) (repo # repos) errs w
          = (Returns (errs @ List.map_filter res (repo # repos)), w')"
      using t Some w'(1) by (simp add: m)
    moreover have "files w' ?ulog \<noteq> None" using u1 mono2 w'(8) by blast
    moreover have "\<forall>name. files w name \<noteq> None \<longrightarrow> files w' name \<noteq> None"
      using mono1 mono2 w'(8) by blast
    moreover have "files w' flog = Some (overwrite c0 0 (pre @ Error (errList (List.map_filter res (repo # repos)))))"
      using w'(4) unfolding m Error_errList_Cons by simp
    moreover have "offset w' flog = length pre + length (Error (errList (List.map_filter res (repo # repos))))"
      using w'(5) unfolding m Error_errList_Cons by simp
    ultimately show ?thesis
      using w'(2,3,6,7) t1 t2 d1 by auto
  qed
qed

lemma overwrite_nothing: "overwrite c 0 [] = c"
  by (simp add: overwrite_def)

lemma buildRepos_with_run:
  assumes pp: "\<forall>n. Pipe_error sys n = None"
    and c: "O_CREATE \<in> set flags"
    and cl: "O_CREATE \<in> set lflags"
    and f: "\<And>repo w0 i. os_Stdout w0 = PipeW i \<Longrightarrow>
              fn repo w0 = (Returns (res repo), Write (PipeW i) (out repo) w0)"
    and lo: "OpenFile_error sys (Join env [logdir, ''failed-builds.log'']) = None"
    and ul: "\<forall>repo \<in> set repos. OpenFile_error sys (Join env [logdir, repo @ ''.log'']) = None
            \<and> Join env [logdir, repo @ ''.log''] \<noteq> Join env [logdir, ''failed-builds.log'']"
    and t: "os_Stdout w = Terminal_out"
  shows "\<exists>w'. buildRepos_with lflags (\<lambda>repo. teeAndEval_flags flags env sys logdir repo (fn repo))
             env sys repos logdir w
           = (Returns (if List.map_filter res repos = [] then None
                       else Some (errList (List.map_filter res repos))), w')
       \<and> terminal_out w' = terminal_out w @ concat (map out repos) @ ''finished builds'' @ newline
       \<and> files w' (Join env [logdir, ''failed-builds.log''])
           = Some (overwrite
               (case files w (Join env [logdir, ''failed-builds.log'']) of None \<Rightarrow> []
                | Some content \<Rightarrow> if O_TRUNC \<in> set lflags then [] else content)
               0 (Error (errList (List.map_filter res repos))))
       \<and> dirs w' = dirs w
       \<and> (\<forall>repo \<in> set repos. files w' (Join env [logdir, repo @ ''.log'']) \<noteq> None)"
proof -
  let ?flog = "Join env [logdir, ''failed-builds.log'']"
  let ?c0 = "case files w ?flog of None \<Rightarrow> []
                | Some content \<Rightarrow> if O_TRUNC \<in> set lflags then [] else content"
  let ?w1 = "w\<lparr>files := (files w)(?flog \<mapsto> ?c0), offset := (offset w)(?flog := 0)\<rparr>"
  have op: "OpenFile sys ?flog lflags w = (Inr (RegularFile ?flog), ?w1)"
    by (rule OpenFile_ok[OF lo cl])
  have s1: "os_Stdout ?w1 = Terminal_out" using t by simp
  have f1: "files ?w1 ?flog = Some (overwrite ?c0 0 [])" by (simp add: overwrite_nothing)
  have o1: "offset ?w1 ?flog = length ([] :: string)" by simp
  from worker_run[where fn = fn and res = res and out = out and errs = "[]",
      OF pp c f ul s1 f1 o1]
  obtain w2 where w2:
      "worker (\<lambda>repo. teeAndEval_flags flags env sys logdir repo (fn repo))
                (RegularFile ?flog) repos [] ?w1
              = (Returns (List.map_filter res repos), w2)"
      "os_Stdout w2 = Terminal_out"
      "terminal_out w2 = terminal_out ?w1 @ concat (map out repos)"
      "files w2 ?flog = Some (overwrite ?c0 0 (Error (errList (List.map_filter res repos))))"
      "dirs w2 = dirs ?w1"
      "\<forall>repo \<in> set repos. files w2 (Join env [logdir, repo @ ''.log'']) \<noteq> None"
    by auto
  let ?w3 = "Println ''finished builds'' w2"
  have b: "buildRepos_with lflags (\<lambda>repo. teeAndEval_flags flags env sys logdir repo (fn repo))
             env sys repos logdir w
           = (Returns (if List.map_filter res repos = [] then None
                       else Some (errList (List.map_filter res repos))), ?w3)"
    unfolding buildRepos_with_def op using w2(1) by (simp add: and_then_def)
  have p: "?w3 = Write Terminal_out (''finished builds'' @ newline) w2"
    using w2(2) by (simp add: Println_def)
  have "terminal_out ?w3 = terminal_out w @ concat (map out repos) @ ''finished builds'' @ newline"
    unfolding p using w2(3) by (simp add: Write_def)
  moreover have "files ?w3 = files w2" "dirs ?w3 = dirs w2"
    unfolding p by (simp_all add: Write_def)
  ultimately show ?thesis
    using b w2(4,5,6) by simp
qed

lemma failures_wrapped:
  "e \<in> set (failures sys opts repos) \<Longrightarrow> \<exists>repo \<in> set repos. \<exists>cause. e = buildError repo cause"
  by (auto simp: failures_def List.map_filter_def)

lemma buildRepos_v1_run:
  assumes a: "\<forall>p. Abs sys p = Inr (absf p)"
    and pp: "\<forall>n. Pipe_error sys n = None"
    and lo: "OpenFile_error sys (failureLog env ldir) = None"
    and ul: "\<forall>repo \<in> set repos. OpenFile_error sys (unitLog env ldir repo) = None
            \<and> unitLog env ldir repo \<noteq> failureLog env ldir"
    and t: "os_Stdout w = Terminal_out"
  shows "\<exists>w'. buildRepos_v1 env sys repos ldir debDir baseDir ver w
           = (Returns (if failures sys (options_v1 env absf debDir baseDir ver) repos = [] then None
                else Some (errList (failures sys (options_v1 env absf debDir baseDir ver) repos))),
              w')
       \<and> terminal_out w' = terminal_out w
            @ transcript sys (options_v1 env absf debDir baseDir ver) repos
            @ ''finished builds'' @ newline
       \<and> files w' (failureLog env ldir)
           = Some (overwrite (case files w (failureLog env ldir) of None \<Rightarrow> [] | Some content \<Rightarrow> content)
               0 (Error (errList (failures sys (options_v1 env absf debDir baseDir ver) repos))))
       \<and> dirs w' = dirs w
       \<and> (\<forall>repo \<in> set repos. files w' (unitLog env ldir repo) \<noteq> None)"
proof -
  have "\<exists>w'. buildRepos_with [O_RDWR, O_CREATE]
             (\<lambda>repo. teeAndEval_flags [O_RDWR, O_CREATE] env sys ldir repo
                (buildRepo_v1 env sys debDir baseDir repo ver))
             env sys repos ldir w
           = (Returns (if List.map_filter (\<lambda>repo. map_option (buildError repo)
                  (engineResult sys (options_v1 env absf debDir baseDir ver repo))) repos = []
                then None
                else Some (errList (List.map_filter (\<lambda>repo. map_option (buildError repo)
                  (engineResult sys (options_v1 env absf debDir baseDir ver repo))) repos))), w')
       \<and> terminal_out w' = terminal_out w
            @ concat (map (\<lambda>repo. ''Building '' @ repo @ newline
                @ engineOutput sys (options_v1 env absf debDir baseDir ver repo)) repos)
            @ ''finished builds'' @ newline
       \<and> files w' (Join env [ldir, ''failed-builds.log''])
           = Some (overwrite
               (case files w (Join env [ldir, ''failed-builds.log'']) of None \<Rightarrow> []
                | Some content \<Rightarrow> if O_TRUNC \<in> set [O_RDWR, O_CREATE] then [] else content)
               0 (Error (errList (List.map_filter (\<lambda>repo. map_option (buildError repo)
                  (engineResult sys (options_v1 env absf debDir baseDir ver repo))) repos))))
       \<and> dirs w' = dirs w
       \<and> (\<forall>repo \<in> set repos. files w' (Join env [ldir, repo @ ''.log'']) \<noteq> None)"
  proof (rule buildRepos_with_run[OF pp])
    show "O_CREATE \<in> set [O_RDWR, O_CREATE]" by simp
    show "O_CREATE \<in> set [O_RDWR, O_CREATE]" by simp
    show "OpenFile_error sys (Join env [ldir, ''failed-builds.log'']) = None"
      using lo by (simp add: failureLog_def)
    show "\<forall>repo \<in> set repos. OpenFile_error sys (Join env [ldir, repo @ ''.log'']) = None
            \<and> Join env [ldir, repo @ ''.log''] \<noteq> Join env [ldir, ''failed-builds.log'']"
      using ul by (simp add: failureLog_def unitLog_def)
    show "os_Stdout w = Terminal_out" by (rule t)
  next
    fix repo and w0 :: world and i assume "os_Stdout w0 = PipeW i"
    then show "buildRepo_v1 env sys debDir baseDir repo ver w0 =
       (Returns (map_option (buildError repo)
           (engineResult sys (options_v1 env absf debDir baseDir ver repo))),
        Write (PipeW i) (''Building '' @ repo @ newline
           @ engineOutput sys (options_v1 env absf debDir baseDir ver repo)) w0)"
      by (rule buildRepo_v1_piped[OF a])
  qed
  moreover have "(case files w (Join env [ldir, ''failed-builds.log'']) of None \<Rightarrow> []
      | Some content \<Rightarrow> if O_TRUNC \<in> set [O_RDWR, O_CREATE] then [] else content)
      = (case files w (Join env [ldir, ''failed-builds.log'']) of None \<Rightarrow> []
         | Some content \<Rightarrow> content)"
    by (simp split: option.splits)
  ultimately show ?thesis
    unfolding buildRepos_v1_def teeAndEval_v1_def failures_def transcript_def failureLog_def
      unitLog_def
    by (simp only:)
qed

lemma buildRepos_v2_run:
  assumes a: "\<forall>p. Abs sys p = Inr (absf p)"
    and pp: "\<forall>n. Pipe_error sys n = None"
    and lo: "OpenFile_error sys (failureLog env ldir) = None"
    and ul: "\<forall>repo \<in> set repos. OpenFile_error sys (unitLog env ldir repo) = None
            \<and> unitLog env ldir repo \<noteq> failureLog env ldir"
    and t: "os_Stdout w = Terminal_out"
  shows "\<exists>w'. buildRepos_v2 env sys repos ldir debDir baseDir img ver loc w
           = (Returns (if failures sys (options_v2 env absf debDir baseDir img ver loc) repos = []
                then None
                else Some (errList (failures sys (options_v2 env absf debDir baseDir img ver loc)
                       repos))),
              w')
       \<and> terminal_out w' = terminal_out w
            @ transcript sys (options_v2 env absf debDir baseDir img ver loc) repos
            @ ''finished builds'' @ newline
       \<and> files w' (failureLog env ldir)
           = Some (Error (errList (failures sys (options_v2 env absf debDir baseDir img ver loc)
                repos)))
       \<and> dirs w' = dirs w
       \<and> (\<forall>repo \<in> set repos. files w' (unitLog env ldir repo) \<noteq> None)"
proof -
  have "\<exists>w'. buildRepos_with [O_RDWR, O_CREATE, O_TRUNC]
             (\<lambda>repo. teeAndEval_flags [O_RDWR, O_CREATE, O_TRUNC] env sys ldir repo
                (buildRepo_v2 env sys debDir baseDir repo img ver loc))
             env sys repos ldir w
           = (Returns (if List.map_filter (\<lambda>repo. map_option (buildError repo)
                  (engineResult sys (options_v2 env absf debDir baseDir img ver loc repo))) repos = []
                then None
                else Some (errList (List.map_filter (\<lambda>repo. map_option (buildError repo)
                  (engineResult sys (options_v2 env absf debDir baseDir img ver loc repo))) repos))),
              w')
       \<and> terminal_out w' = terminal_out w
            @ concat (map (\<lambda>repo. ''Building '' @ repo @ newline
                @ engineOutput sys (options_v2 env absf debDir baseDir img ver loc repo)) repos)
            @ ''finished builds'' @ newline
       \<and> files w' (Join env [ldir, ''failed-builds.log''])
           = Some (overwrite
               (case files w (Join env [ldir, ''failed-builds.log'']) of None \<Rightarrow> []
                | Some content \<Rightarrow> if O_TRUNC \<in> set [O_RDWR, O_CREATE, O_TRUNC] then [] else content)
               0 (Error (errList (List.map_filter (\<lambda>repo. map_option (buildError repo)
                  (engineResult sys (options_v2 env absf debDir baseDir img ver loc repo))) repos))))
       \<and> dirs w' = dirs w
       \<and> (\<forall>repo \<in> set repos. files w' (Join env [ldir, repo @ ''.log'']) \<noteq> None)"
  proof (rule buildRepos_with_run[OF pp])
    show "O_CREATE \<in> set [O_RDWR, O_CREATE, O_TRUNC]" by simp
    show "O_CREATE \<in> set [O_RDWR, O_CREATE, O_TRUNC]" by simp
    show "OpenFile_error sys (Join env [ldir, ''failed-builds.log'']) = None"
      using lo by (simp add: failureLog_def)
    show "\<forall>repo \<in> set repos. OpenFile_error sys (Join env [ldir, repo @ ''.log'']) = None
            \<and> Join env [ldir, repo @ ''.log''] \<noteq> Join env [ldir, ''failed-builds.log'']"
      using ul by (simp add: failureLog_def unitLog_def)
    show "os_Stdout w = Terminal_out" by (rule t)
  next
    fix repo and w0 :: world and i assume "os_Stdout w0 = PipeW i"
    then show "buildRepo_v2 env sys debDir baseDir repo img ver loc w0 =
       (Returns (map_option (buildError repo)
           (engineResult sys (options_v2 env absf debDir baseDir img ver loc repo))),
        Write (PipeW i) (''Building '' @ repo @ newline
           @ engineOutput sys (options_v2 env absf debDir baseDir img ver loc repo)) w0)"
      by (rule buildRepo_v2_piped[OF a])
  qed
  moreover have "(case files w (Join env [ldir, ''failed-builds.log'']) of None \<Rightarrow> []
      | Some content \<Rightarrow> if O_TRUNC \<in> set [O_RDWR, O_CREATE, O_TRUNC] then [] else content) = []"
    by (simp split: option.splits)
  ultimately show ?thesis
    unfolding buildRepos_v2_def teeAndEval_v2_def failures_def transcript_def failureLog_def
      unitLog_def
    by (simp only: overwrite_empty)
qed

text \<open>
  Claim C6. Take a run of \<open>buildRepos\<close> that starts with its output on the terminal, in
  which every path resolves and the pipes, the failure log and the units' log files can
  be opened, no unit's log being the failure log. Then, in both variants:
  every failure of the run is the engine's error wrapped with the name of its unit; the
  run returns, and its result is \<open>nil\<close> exactly when the list of failures is empty and
  the list of failures as one error otherwise, the list holding the failure of every
  unit whose build failed, in build order; the terminal has received the \<open>Building\<close>
  line and the output of every unit of the order, those after a failed unit included;
  and the lines of the failures have been written to the failure log, from its start.
\<close>

theorem buildRepos_aggregates_failures:
  assumes "\<forall>p. Abs sys p = Inr (absf p)"
    and "\<forall>n. Pipe_error sys n = None"
    and "OpenFile_error sys (failureLog env ldir) = None"
    and "\<forall>repo \<in> set repos. OpenFile_error sys (unitLog env ldir repo) = None
            \<and> unitLog env ldir repo \<noteq> failureLog env ldir"
    and "os_Stdout w = Terminal_out"
  shows "(\<forall>e \<in> set (failures sys (options_v1 env absf debDir baseDir ver) repos).
            \<exists>repo \<in> set repos. \<exists>cause. e = buildError repo cause)
     \<and> (\<exists>w'. buildRepos_v1 env sys repos ldir debDir baseDir ver w
           = (Returns (if failures sys (options_v1 env absf debDir baseDir ver) repos = [] then None
                else Some (errList (failures sys (options_v1 env absf debDir baseDir ver) repos))),
              w')
          \<and> terminal_out w' = terminal_out w
               @ transcript sys (options_v1 env absf debDir baseDir ver) repos
               @ ''finished builds'' @ newline
          \<and> files w' (failureLog env ldir)
              = Some (overwrite
                  (case files w (failureLog env ldir) of None \<Rightarrow> [] | Some content \<Rightarrow> content)
                  0 (Error (errList (failures sys (options_v1 env absf debDir baseDir ver) repos)))))
     \<and> (\<forall>e \<in> set (failures sys (options_v2 env absf debDir baseDir img ver loc) repos).
            \<exists>repo \<in> set repos. \<exists>cause. e = buildError repo cause)
     \<and> (\<exists>w'. buildRepos_v2 env sys repos ldir debDir baseDir img ver loc w
           = (Returns (if failures sys (options_v2 env absf debDir baseDir img ver loc) repos = []
                then None
                else Some (errList (failures sys (options_v2 env absf debDir baseDir img ver loc)
                       repos))),
              w')
          \<and> terminal_out w' = terminal_out w
               @ transcript sys (options_v2 env absf debDir baseDir img ver loc) repos
               @ ''finished builds'' @ newline
          \<and> files w' (failureLog env ldir)
              = Some (Error (errList (failures sys (options_v2 env absf debDir baseDir img ver loc)
                   repos))))"
  using buildRepos_v1_run[OF assms, of debDir baseDir ver]
    buildRepos_v2_run[OF assms, of debDir baseDir img ver loc]
    failures_wrapped[of _ sys _ repos]
  by blast

lemma example_failures:
  "failures example_sys (options_v1 (example_env []) (\<lambda>p. ''/work/'' @ p) ''pkg'' ''src'' ''debian10-bootstrap'')
     [''a'', ''b'', ''c''] = [buildError ''b'' (ErrExternal ''exit status 2'')]"
  "failures example_sys (options_v2 (example_env []) (\<lambda>p. ''/work/'' @ p) ''pkg'' ''src'' ''img''
     ''debian10-bootstrap'' False) [''a'', ''b'', ''c'']
     = [buildError ''b'' (ErrExternal ''exit status 2'')]"
  by code_simp+

lemma example_transcript:
  "transcript example_sys (options_v1 (example_env []) (\<lambda>p. ''/work/'' @ p) ''pkg'' ''src''
     ''debian10-bootstrap'') [''a'', ''b'', ''c'']
   = ''Building a'' @ newline @ ''ok'' @ newline @ ''Building b'' @ newline @ ''make: error''
       @ newline @ ''Building c'' @ newline @ ''ok'' @ newline"
  "transcript example_sys (options_v2 (example_env []) (\<lambda>p. ''/work/'' @ p) ''pkg'' ''src'' ''img''
     ''debian10-bootstrap'' False) [''a'', ''b'', ''c'']
   = ''Building a'' @ newline @ ''ok'' @ newline @ ''Building b'' @ newline @ ''make: error''
       @ newline @ ''Building c'' @ newline @ ''ok'' @ newline"
  by code_simp+

lemma example_log_lines:
  "Error (errList [buildError ''b'' (ErrExternal ''exit status 2'')])
     = ''build for b failed: exit status 2'' @ newline"
  "overwrite (''build for zebra failed: exit status 1'' @ newline) 0
       (''build for b failed: exit status 2'' @ newline)
     = ''build for b failed: exit status 2'' @ newline @ ''s 1'' @ newline"
  by code_simp+

theorem buildRepos_aggregates_failures_witness:
  "(\<forall>p. Abs example_sys p = Inr (''/work/'' @ p))
   \<and> (\<forall>n. Pipe_error example_sys n = None)
   \<and> OpenFile_error example_sys (failureLog (example_env []) ''log'') = None
   \<and> OpenFile_error example_sys (unitLog (example_env []) ''log'' ''a'') = None
   \<and> unitLog (example_env []) ''log'' ''a'' \<noteq> failureLog (example_env []) ''log''
   \<and> OpenFile_error example_sys (unitLog (example_env []) ''log'' ''b'') = None
   \<and> unitLog (example_env []) ''log'' ''b'' \<noteq> failureLog (example_env []) ''log''
   \<and> OpenFile_error example_sys (unitLog (example_env []) ''log'' ''c'') = None
   \<and> unitLog (example_env []) ''log'' ''c'' \<noteq> failureLog (example_env []) ''log''
   \<and> os_Stdout example_world = Terminal_out
   \<and> (\<exists>w'. buildRepos_v1 (example_env []) example_sys [''a'', ''b'', ''c''] ''log'' ''pkg'' ''src''
              ''debian10-bootstrap'' example_world
            = (Returns (Some (errList [buildError ''b'' (ErrExternal ''exit status 2'')])), w')
          \<and> terminal_out w' = ''Building a'' @ newline @ ''ok'' @ newline @ ''Building b''
               @ newline @ ''make: error'' @ newline @ ''Building c'' @ newline @ ''ok'' @ newline
               @ ''finished builds'' @ newline
          \<and> files w' ''log/failed-builds.log''
              = Some (''build for b failed: exit status 2'' @ newline @ ''s 1'' @ newline))
   \<and> (\<exists>w'. buildRepos_v2 (example_env []) example_sys [''a'', ''b'', ''c''] ''log'' ''pkg'' ''src''
              ''img'' ''debian10-bootstrap'' False example_world
            = (Returns (Some (errList [buildError ''b'' (ErrExternal ''exit status 2'')])), w')
          \<and> terminal_out w' = ''Building a'' @ newline @ ''ok'' @ newline @ ''Building b''
               @ newline @ ''make: error'' @ newline @ ''Building c'' @ newline @ ''ok'' @ newline
               @ ''finished builds'' @ newline
          \<and> files w' ''log/failed-builds.log''
              = Some (''build for b failed: exit status 2'' @ newline))"
proof -
  have h1: "\<forall>p. Abs example_sys p = Inr ((\<lambda>p. ''/work/'' @ p) p)"
    by (simp add: example_sys_def)
  have h2: "\<forall>n. Pipe_error example_sys n = None"
    by (simp add: example_sys_def)
  have n: "failureLog (example_env []) ''log'' = ''log/failed-builds.log''"
    by (simp add: failureLog_def example_env_def)
  have u: "unitLog (example_env []) ''log'' repo = ''log/'' @ repo @ ''.log''" for repo
    by (simp add: unitLog_def example_env_def)
  have h3: "OpenFile_error example_sys (failureLog (example_env []) ''log'') = None"
    by (simp add: n example_sys_def)
  have h4: "\<forall>repo \<in> set [''a'', ''b'', ''c''].
         OpenFile_error example_sys (unitLog (example_env []) ''log'' repo) = None
         \<and> unitLog (example_env []) ''log'' repo \<noteq> failureLog (example_env []) ''log''"
    by (simp add: n u example_sys_def)
  have h5: "os_Stdout example_world = Terminal_out"
    by (simp add: example_world_def)
  have w: "terminal_out example_world = []"
    "files example_world ''log/failed-builds.log''
       = Some (''build for zebra failed: exit status 1'' @ newline)"
    by (simp_all add: example_world_def)
  from buildRepos_aggregates_failures[OF h1 h2 h3 h4 h5,
      where debDir = "''pkg''" and baseDir = "''src''" and ver = "''debian10-bootstrap''"
        and img = "''img''" and loc = False]
  have "(\<exists>w'. buildRepos_v1 (example_env []) example_sys [''a'', ''b'', ''c''] ''log'' ''pkg'' ''src''
              ''debian10-bootstrap'' example_world
            = (Returns (Some (errList [buildError ''b'' (ErrExternal ''exit status 2'')])), w')
          \<and> terminal_out w' = ''Building a'' @ newline @ ''ok'' @ newline @ ''Building b''
               @ newline @ ''make: error'' @ newline @ ''Building c'' @ newline @ ''ok'' @ newline
               @ ''finished builds'' @ newline
          \<and> files w' ''log/failed-builds.log''
              = Some (''build for b failed: exit status 2'' @ newline @ ''s 1'' @ newline))
   \<and> (\<exists>w'. buildRepos_v2 (example_env []) example_sys [''a'', ''b'', ''c''] ''log'' ''pkg'' ''src''
              ''img'' ''debian10-bootstrap'' False example_world
            = (Returns (Some (errList [buildError ''b'' (ErrExternal ''exit status 2'')])), w')
          \<and> terminal_out w' = ''Building a'' @ newline @ ''ok'' @ newline @ ''Building b''
               @ newline @ ''make: error'' @ newline @ ''Building c'' @ newline @ ''ok'' @ newline
               @ ''finished builds'' @ newline
          \<and> files w' ''log/failed-builds.log''
              = Some (''build for b failed: exit status 2'' @ newline))"
    by (simp only: example_failures example_transcript n w example_log_lines list.distinct
        if_False option.case append_Nil append_assoc simp_thms)
  moreover from h4 have "OpenFile_error example_sys (unitLog (example_env []) ''log'' ''a'') = None
     \<and> unitLog (example_env []) ''log'' ''a'' \<noteq> failureLog (example_env []) ''log''
     \<and> OpenFile_error example_sys (unitLog (example_env []) ''log'' ''b'') = None
     \<and> unitLog (example_env []) ''log'' ''b'' \<noteq> failureLog (example_env []) ''log''
     \<and> OpenFile_error example_sys (unitLog (example_env []) ''log'' ''c'') = None
     \<and> unitLog (example_env []) ''log'' ''c'' \<noteq> failureLog (example_env []) ''log''"
    by simp
  ultimately show ?thesis using h1 h2 h3 h5 by blast
qed

lemma example_run_hyps:
  "\<forall>p. Abs example_sys p = Inr ((\<lambda>p. ''/work/'' @ p) p)"
  "\<forall>n. Pipe_error example_sys n = None"
  "OpenFile_error example_sys (failureLog (example_env []) ''log'') = None"
  "\<forall>repo \<in> set [''a'']. OpenFile_error example_sys (unitLog (example_env []) ''log'' repo) = None
         \<and> unitLog (example_env []) ''log'' repo \<noteq> failureLog (example_env []) ''log''"
  "os_Stdout example_world = Terminal_out"
  by (simp_all add: example_sys_def failureLog_def unitLog_def example_env_def example_world_def)

lemma example_no_failures:
  "failures example_sys (options_v1 (example_env []) (\<lambda>p. ''/work/'' @ p) ''pkg'' ''src'' ''latest'')
     [''a''] = []"
  "failures example_sys (options_v2 (example_env []) (\<lambda>p. ''/work/'' @ p) ''pkg'' ''src'' ''img''
     ''debian10-bootstrap'' False) [''a''] = []"
  by code_simp+

text \<open>
  Claim C7, at an input where \<open>src/main.go\<close> departs from it. The log directory holds the
  failure log of an earlier run, with one failure; the order is the one unit \<open>a\<close>, whose
  build succeeds. \<open>buildRepos\<close> of \<open>src/main.go\<close>, which opens the failure log without
  \<open>O_TRUNC\<close>, returns \<open>nil\<close> and leaves the log as it was: it still lists the failure
  of the earlier run. The second variant, which opens it with \<open>O_TRUNC\<close>, leaves it empty.
\<close>

theorem buildRepos_v1_keeps_stale_failure_log:
  "files example_world ''log/failed-builds.log''
     = Some (''build for zebra failed: exit status 1'' @ newline)
   \<and> fst (buildRepos_v1 (example_env []) example_sys [''a''] ''log'' ''pkg'' ''src'' ''latest''
          example_world) = Returns None
   \<and> files (snd (buildRepos_v1 (example_env []) example_sys [''a''] ''log'' ''pkg'' ''src''
          ''latest'' example_world)) ''log/failed-builds.log''
       = Some (''build for zebra failed: exit status 1'' @ newline)
   \<and> fst (buildRepos_v2 (example_env []) example_sys [''a''] ''log'' ''pkg'' ''src'' ''img''
          ''debian10-bootstrap'' False example_world) = Returns None
   \<and> files (snd (buildRepos_v2 (example_env []) example_sys [''a''] ''log'' ''pkg'' ''src''
          ''img'' ''debian10-bootstrap'' False example_world)) ''log/failed-builds.log''
       = Some []"
proof -
  have n: "failureLog (example_env []) ''log'' = ''log/failed-builds.log''"
    by (simp add: failureLog_def example_env_def)
  have w: "files example_world ''log/failed-builds.log''
       = Some (''build for zebra failed: exit status 1'' @ newline)"
    by (simp add: example_world_def)
  from buildRepos_v1_run[OF example_run_hyps, of "''pkg''" "''src''" "''latest''"]
  have v1: "fst (buildRepos_v1 (example_env []) example_sys [''a''] ''log'' ''pkg'' ''src'' ''latest''
          example_world) = Returns None
     \<and> files (snd (buildRepos_v1 (example_env []) example_sys [''a''] ''log'' ''pkg'' ''src''
          ''latest'' example_world)) ''log/failed-builds.log''
       = Some (''build for zebra failed: exit status 1'' @ newline)"
    unfolding example_no_failures n w
    by (auto simp: overwrite_nothing)
  from buildRepos_v2_run[OF example_run_hyps,
      of "''pkg''" "''src''" "''img''" "''debian10-bootstrap''" False]
  have v2: "fst (buildRepos_v2 (example_env []) example_sys [''a''] ''log'' ''pkg'' ''src'' ''img''
          ''debian10-bootstrap'' False example_world) = Returns None
     \<and> files (snd (buildRepos_v2 (example_env []) example_sys [''a''] ''log'' ''pkg'' ''src''
          ''img'' ''debian10-bootstrap'' False example_world)) ''log/failed-builds.log''
       = Some []"
    unfolding example_no_failures n
    by auto
  from w v1 v2 show ?thesis by blast
qed

section \<open>Properties of the metadata index\<close>

lemma foldl_invariant:
  "P a \<Longrightarrow> (\<And>a x. x \<in> set xs \<Longrightarrow> P a \<Longrightarrow> P (f a x)) \<Longrightarrow> P (foldl f a xs)"
  by (induction xs arbitrary: a) auto

lemma not_both: "unparseable_unit env from repo \<Longrightarrow> \<not> parseable_unit env from repo"
  by (auto simp: unparseable_unit_def parseable_unit_def split: sum.splits)

lemma enumerateRepo_cases:
  "enumerateRepo ib env from out repo =
     (if unparseable_unit env from repo then out\<lparr>unparseable := unparseable out @ [repo]\<rparr>
      else if parseable_unit env from repo then
        (case Open env (Join env [from, repo, ''debian'', ''control'']) of
           Inr ctrlFile \<Rightarrow>
             (case ParseControl env ctrlFile (Join env [from, repo, ''debian'', ''control'']) of
                Inr ctrl \<Rightarrow>
                  out\<lparr>ctrlFiles := AList.update repo ctrl (ctrlFiles out),
                      pack2repo := foldl (ib env repo) (pack2repo out) (Binaries ctrl)\<rparr>
              | Inl e \<Rightarrow> out)
         | Inl e \<Rightarrow> out)
      else out)"
  by (auto simp: enumerateRepo_def unparseable_unit_def parseable_unit_def Let_def
      split: sum.splits)

lemma enumerateRepo_unparseable:
  "unparseable (enumerateRepo ib env from out repo) =
     unparseable out @ (if unparseable_unit env from repo then [repo] else [])"
  by (auto simp: enumerateRepo_def unparseable_unit_def Let_def split: sum.splits)

lemma enumerate_unparseable:
  "unparseable (foldl (enumerateRepo ib env from) out names) =
     unparseable out @ filter (unparseable_unit env from) names"
  by (induction names arbitrary: out) (simp_all add: enumerateRepo_unparseable)

lemma enumerateRepo_keys:
  "fst ` set (ctrlFiles (enumerateRepo ib env from out repo)) \<subseteq>
     fst ` set (ctrlFiles out) \<union> (if parseable_unit env from repo then {repo} else {})"
  by (auto simp: enumerateRepo_def parseable_unit_def Let_def dom_update split: sum.splits)

lemma enumerate_keys:
  "fst ` set (ctrlFiles (foldl (enumerateRepo ib env from) out names)) \<subseteq>
     fst ` set (ctrlFiles out) \<union> {n \<in> set names. parseable_unit env from n}"
proof (induction names arbitrary: out)
  case Nil
  then show ?case by simp
next
  case (Cons n names)
  have "fst ` set (ctrlFiles (foldl (enumerateRepo ib env from) (enumerateRepo ib env from out n) names))
      \<subseteq> fst ` set (ctrlFiles (enumerateRepo ib env from out n))
          \<union> {n \<in> set names. parseable_unit env from n}"
    by (rule Cons.IH)
  with enumerateRepo_keys[of ib env "from" out n] show ?case
    by (auto split: if_splits)
qed

lemma ran_upd_subset: "ran (m(k \<mapsto> v)) \<subseteq> insert v (ran m)"
  by (auto simp: ran_def)

lemma indexBinary_v1_ran: "ran (indexBinary_v1 env repo m bin) \<subseteq> insert repo (ran m)"
  by (simp add: indexBinary_v1_def Let_def ran_upd_subset)

lemma foldl_upd_ran:
  "ran (foldl (\<lambda>m x. m(k x \<mapsto> v)) m xs) \<subseteq> insert v (ran m)"
proof (induction xs arbitrary: m)
  case Nil
  then show ?case by auto
next
  case (Cons x xs)
  have "ran (foldl (\<lambda>m x. m(k x \<mapsto> v)) (m(k x \<mapsto> v)) xs) \<subseteq> insert v (ran (m(k x \<mapsto> v)))"
    by (rule Cons.IH)
  also have "\<dots> \<subseteq> insert v (ran m)"
    using ran_upd_subset[of m "k x" v] by blast
  finally show ?case by (simp only: foldl.simps)
qed

lemma indexBinary_v2_ran: "ran (indexBinary_v2 env repo m bin) \<subseteq> insert repo (ran m)"
proof -
  have "ran (foldl (\<lambda>m poss. m(TrimSpace env (Name poss) \<mapsto> repo))
              (m(TrimSpace env (Package bin) \<mapsto> repo)) xs) \<subseteq> insert repo (ran m)" for xs
    using foldl_upd_ran[of "\<lambda>poss. TrimSpace env (Name poss)" repo
        "m(TrimSpace env (Package bin) \<mapsto> repo)" xs]
      ran_upd_subset[of m "TrimSpace env (Package bin)" repo]
    by blast
  moreover have "ran (m(TrimSpace env (Package bin) \<mapsto> repo)) \<subseteq> insert repo (ran m)"
    by (rule ran_upd_subset)
  ultimately show ?thesis
    unfolding indexBinary_v2_def Let_def
    by (simp split: option.splits sum.splits del: fun_upd_apply) blast
qed

lemma foldl_index_ran:
  assumes "\<And>m bin. ran (ib env repo m bin) \<subseteq> insert repo (ran m)"
  shows "ran (foldl (ib env repo) m bins) \<subseteq> insert repo (ran m)"
proof (induction bins arbitrary: m)
  case Nil
  then show ?case by auto
next
  case (Cons b bins)
  have "ran (foldl (ib env repo) (ib env repo m b) bins) \<subseteq> insert repo (ran (ib env repo m b))"
    by (rule Cons.IH)
  also have "\<dots> \<subseteq> insert repo (ran m)"
    using assms[of m b] by blast
  finally show ?case by (simp only: foldl.simps)
qed

lemma enumerateRepo_ran:
  assumes "\<And>repo m bin. ran (ib env repo m bin) \<subseteq> insert repo (ran m)"
  shows "ran (pack2repo (enumerateRepo ib env from out repo)) \<subseteq>
     ran (pack2repo out) \<union> (if parseable_unit env from repo then {repo} else {})"
  using foldl_index_ran[of ib env repo, OF assms]
  by (auto simp: enumerateRepo_def parseable_unit_def Let_def split: sum.splits)

lemma enumerate_ran:
  assumes "\<And>repo m bin. ran (ib env repo m bin) \<subseteq> insert repo (ran m)"
  shows "ran (pack2repo (foldl (enumerateRepo ib env from) out names)) \<subseteq>
     ran (pack2repo out) \<union> {n \<in> set names. parseable_unit env from n}"
proof (induction names arbitrary: out)
  case Nil
  then show ?case by simp
next
  case (Cons n names)
  have "ran (pack2repo (foldl (enumerateRepo ib env from) (enumerateRepo ib env from out n) names))
      \<subseteq> ran (pack2repo (enumerateRepo ib env from out n))
          \<union> {n \<in> set names. parseable_unit env from n}"
    by (rule Cons.IH)
  with enumerateRepo_ran[of ib env "from" out n, OF assms] show ?case
    by (auto split: if_splits)
qed

lemma vertices_addPossibility:
  "set (vertices (addPossibility env repos repo g pos)) \<subseteq>
     set (vertices g) \<union> {repo} \<union> ran (pack2repo repos)"
  by (auto simp: addPossibility_def Let_def vertices_AddEdge ran_def split: option.splits)

lemma vertices_addRelations:
  "set (vertices (addRelations env repos repo ctrl g)) \<subseteq>
     set (vertices g) \<union> {repo} \<union> ran (pack2repo repos)"
proof -
  let ?P = "\<lambda>g' :: Graph. set (vertices g') \<subseteq> set (vertices g) \<union> {repo} \<union> ran (pack2repo repos)"
  have inner: "?P (foldl (addPossibility env repos repo) g' ps)" if "?P g'" for g' ps
    using that
  proof (induction ps arbitrary: g')
    case Nil
    then show ?case by simp
  next
    case (Cons p ps)
    have "?P (addPossibility env repos repo g' p)"
      using vertices_addPossibility[of env repos repo g' p] Cons.prems by blast
    then show ?case using Cons.IH by simp
  qed
  have outer: "?P (foldl (\<lambda>g rel. foldl (addPossibility env repos repo) g (Possibilities rel))
      g' rels)" if "?P g'" for g' rels
    using that
  proof (induction rels arbitrary: g')
    case Nil
    then show ?case by simp
  next
    case (Cons rel rels)
    have "?P (foldl (addPossibility env repos repo) g' (Possibilities rel))"
      using Cons.prems by (rule inner)
    then show ?case using Cons.IH by simp
  qed
  have "?P g" by blast
  then have "?P (foldl (\<lambda>g rel. foldl (addPossibility env repos repo) g (Possibilities rel))
      g (Relations (BuildDepends (Source ctrl))))"
    by (rule outer)
  then show ?thesis by (simp add: addRelations_def)
qed

lemma vertices_addBase_v1:
  "set (vertices (addBase_v1 repo g)) \<subseteq> set (vertices g) \<union> {repo} \<union> baseTargets_v1"
  by (auto simp: addBase_v1_def baseTargets_v1_def vertices_AddEdge)

lemma vertices_addBase_v2:
  "set (vertices (addBase_v2 repo g)) \<subseteq> set (vertices g) \<union> {repo} \<union> baseTargets_v2"
  by (auto simp: addBase_v2_def baseTargets_v2_def vertices_AddEdge Let_def)

lemma vertices_depGraph_with:
  assumes "\<And>repo g. set (vertices (addBase repo g)) \<subseteq> set (vertices g) \<union> {repo} \<union> T"
  shows "set (vertices (depGraph_with addBase env repos)) \<subseteq>
     fst ` set (ctrlFiles repos) \<union> ran (pack2repo repos) \<union> T"
  unfolding depGraph_with_def
proof (rule foldl_invariant[where P = "\<lambda>g. set (vertices g) \<subseteq>
     fst ` set (ctrlFiles repos) \<union> ran (pack2repo repos) \<union> T"])
  show "set (vertices New) \<subseteq> fst ` set (ctrlFiles repos) \<union> ran (pack2repo repos) \<union> T"
    by (simp add: New_def)
next
  fix g :: Graph and x :: "string \<times> Control"
  assume x: "x \<in> set (ctrlFiles repos)"
    and g: "set (vertices g) \<subseteq> fst ` set (ctrlFiles repos) \<union> ran (pack2repo repos) \<union> T"
  obtain repo ctrl where xe: "x = (repo, ctrl)" by (cases x)
  with x have k: "repo \<in> fst ` set (ctrlFiles repos)" by force
  have "set (vertices (addRepo addBase env repos g x)) \<subseteq>
      set (vertices (addBase repo (AddVertex repo g))) \<union> {repo} \<union> ran (pack2repo repos)"
    unfolding xe addRepo_def using vertices_addRelations by simp
  also have "\<dots> \<subseteq> set (vertices (AddVertex repo g)) \<union> {repo} \<union> T \<union> ran (pack2repo repos)"
    using assms[of repo "AddVertex repo g"] by blast
  also have "\<dots> \<subseteq> fst ` set (ctrlFiles repos) \<union> ran (pack2repo repos) \<union> T"
    using g k by (auto simp: vertices_AddVertex)
  finally show "set (vertices (addRepo addBase env repos g x)) \<subseteq>
      fst ` set (ctrlFiles repos) \<union> ran (pack2repo repos) \<union> T" .
qed

lemma count_list_distinct: "distinct xs \<Longrightarrow> x \<in> set xs \<Longrightarrow> count_list xs x = 1"
  by (induction xs) (auto simp: count_list_0_iff)

lemma count_list_notin: "x \<notin> set xs \<Longrightarrow> count_list xs x = 0"
  by (simp add: count_list_0_iff)

lemma built_last_with:
  assumes rd: "ReadDir env from = Inr names" and dn: "distinct names"
    and ib: "\<And>repo m bin. ran (ib env repo m bin) \<subseteq> insert repo (ran m)"
    and ab: "\<And>repo g. set (vertices (addBase repo g)) \<subseteq> set (vertices g) \<union> {repo} \<union> T"
    and wf: "\<And>repos. wf_graph (depGraph_with addBase env repos)"
  shows "\<exists>repos. enumerateBuildableRepos_with ib env from = Returns repos
      \<and> unparseable repos = filter (unparseable_unit env from) names
      \<and> (\<forall>sorted_repos. Sort (depGraph_with addBase env repos) = Inr sorted_repos \<longrightarrow>
            determineBuildOrder_with addBase env repos = Returns (sorted_repos @ unparseable repos))
      \<and> (\<forall>u \<in> set names. unparseable_unit env from u \<longrightarrow> u \<notin> T \<longrightarrow>
            u \<notin> set (vertices (depGraph_with addBase env repos))
          \<and> (\<forall>a b. (a, b) \<in> set (edges (depGraph_with addBase env repos)) \<longrightarrow> a \<noteq> u \<and> b \<noteq> u)
          \<and> (\<forall>order. determineBuildOrder_with addBase env repos = Returns order \<longrightarrow>
                count_list order u = 1))"
proof -
  define repos where "repos = foldl (enumerateRepo ib env from)
      \<lparr>ctrlFiles = [], pack2repo = Map.empty, unparseable = []\<rparr> names"
  let ?G = "depGraph_with addBase env repos"
  have e: "enumerateBuildableRepos_with ib env from = Returns repos"
    by (simp add: enumerateBuildableRepos_with_def rd repos_def)
  have u: "unparseable repos = filter (unparseable_unit env from) names"
    unfolding repos_def by (simp add: enumerate_unparseable)
  have k: "fst ` set (ctrlFiles repos) \<subseteq> {n \<in> set names. parseable_unit env from n}"
    unfolding repos_def using enumerate_keys[of ib env "from" _ names] by fastforce
  have r: "ran (pack2repo repos) \<subseteq> {n \<in> set names. parseable_unit env from n}"
    unfolding repos_def using enumerate_ran[of ib env "from" _ names, OF ib] by fastforce
  have v: "set (vertices ?G) \<subseteq> {n \<in> set names. parseable_unit env from n} \<union> T"
    using vertices_depGraph_with[of addBase T env repos, OF ab] k r by blast
  have s: "\<forall>sorted_repos. Sort ?G = Inr sorted_repos \<longrightarrow>
            determineBuildOrder_with addBase env repos = Returns (sorted_repos @ unparseable repos)"
    by (simp add: determineBuildOrder_with_def)
  have per: "u' \<notin> set (vertices ?G)
          \<and> (\<forall>a b. (a, b) \<in> set (edges ?G) \<longrightarrow> a \<noteq> u' \<and> b \<noteq> u')
          \<and> (\<forall>order. determineBuildOrder_with addBase env repos = Returns order \<longrightarrow>
                count_list order u' = 1)"
    if m: "u' \<in> set names" and un: "unparseable_unit env from u'" and nt: "u' \<notin> T" for u'
  proof -
    from not_both[OF un] nt v have nv: "u' \<notin> set (vertices ?G)" by blast
    have ne: "\<forall>a b. (a, b) \<in> set (edges ?G) \<longrightarrow> a \<noteq> u' \<and> b \<noteq> u'"
      using wf[of repos] nv by (auto simp: wf_graph_def)
    have c: "count_list order u' = 1" if o: "determineBuildOrder_with addBase env repos = Returns order"
      for order
    proof -
      from o obtain sorted_repos where so: "Sort ?G = Inr sorted_repos"
        and oe: "order = sorted_repos @ unparseable repos"
        by (auto simp: determineBuildOrder_with_def split: sum.splits)
      from Sort_sound[OF wf so] nv have "u' \<notin> set sorted_repos" by simp
      then have "count_list sorted_repos u' = 0" by (rule count_list_notin)
      moreover have "count_list (unparseable repos) u' = 1"
        unfolding u using dn m un by (intro count_list_distinct) auto
      ultimately show ?thesis by (simp add: oe)
    qed
    from nv ne c show ?thesis by blast
  qed
  from e u s per show ?thesis by blast
qed

text \<open>
  Claim C5, amended. Let the directory listing be \<open>names\<close>, without repetition. In both
  variants the units with a control file that fails to parse are recorded as unparseable
  in the order of the listing, and the final build order is the sorted graph followed
  by them in that order. Such a unit whose name is not a target of the implicit edges
  (\<open>base-files\<close>; in the second variant also \<open>lintian-profile-vyatta\<close> and
  \<open>linux-vyatta\<close>) is no vertex of the graph and no end of an edge, and occurs exactly
  once in the final order.
\<close>

theorem unparseable_units_once_at_end:
  assumes "ReadDir env from = Inr names" and "distinct names"
  shows "(\<exists>repos. enumerateBuildableRepos_v1 env from = Returns repos
      \<and> unparseable repos = filter (unparseable_unit env from) names
      \<and> (\<forall>sorted_repos. Sort (depGraph_v1 env repos) = Inr sorted_repos \<longrightarrow>
            determineBuildOrder_v1 env repos = Returns (sorted_repos @ unparseable repos))
      \<and> (\<forall>u \<in> set names. unparseable_unit env from u \<longrightarrow> u \<notin> baseTargets_v1 \<longrightarrow>
            u \<notin> set (vertices (depGraph_v1 env repos))
          \<and> (\<forall>a b. (a, b) \<in> set (edges (depGraph_v1 env repos)) \<longrightarrow> a \<noteq> u \<and> b \<noteq> u)
          \<and> (\<forall>order. determineBuildOrder_v1 env repos = Returns order \<longrightarrow>
                count_list order u = 1)))
   \<and> (\<exists>repos. enumerateBuildableRepos_v2 env from = Returns repos
      \<and> unparseable repos = filter (unparseable_unit env from) names
      \<and> (\<forall>sorted_repos. Sort (depGraph_v2 env repos) = Inr sorted_repos \<longrightarrow>
            determineBuildOrder_v2 env repos = Returns (sorted_repos @ unparseable repos))
      \<and> (\<forall>u \<in> set names. unparseable_unit env from u \<longrightarrow> u \<notin> baseTargets_v2 \<longrightarrow>
            u \<notin> set (vertices (depGraph_v2 env repos))
          \<and> (\<forall>a b. (a, b) \<in> set (edges (depGraph_v2 env repos)) \<longrightarrow> a \<noteq> u \<and> b \<noteq> u)
          \<and> (\<forall>order. determineBuildOrder_v2 env repos = Returns order \<longrightarrow>
                count_list order u = 1)))"
proof
  show "\<exists>repos. enumerateBuildableRepos_v1 env from = Returns repos
      \<and> unparseable repos = filter (unparseable_unit env from) names
      \<and> (\<forall>sorted_repos. Sort (depGraph_v1 env repos) = Inr sorted_repos \<longrightarrow>
            determineBuildOrder_v1 env repos = Returns (sorted_repos @ unparseable repos))
      \<and> (\<forall>u \<in> set names. unparseable_unit env from u \<longrightarrow> u \<notin> baseTargets_v1 \<longrightarrow>
            u \<notin> set (vertices (depGraph_v1 env repos))
          \<and> (\<forall>a b. (a, b) \<in> set (edges (depGraph_v1 env repos)) \<longrightarrow> a \<noteq> u \<and> b \<noteq> u)
          \<and> (\<forall>order. determineBuildOrder_v1 env repos = Returns order \<longrightarrow>
                count_list order u = 1))"
    unfolding enumerateBuildableRepos_v1_def determineBuildOrder_v1_def depGraph_v1_def
    by (rule built_last_with[OF assms indexBinary_v1_ran vertices_addBase_v1])
      (rule wf_graph_depGraph_with, rule wf_graph_addBase_v1)
next
  show "\<exists>repos. enumerateBuildableRepos_v2 env from = Returns repos
      \<and> unparseable repos = filter (unparseable_unit env from) names
      \<and> (\<forall>sorted_repos. Sort (depGraph_v2 env repos) = Inr sorted_repos \<longrightarrow>
            determineBuildOrder_v2 env repos = Returns (sorted_repos @ unparseable repos))
      \<and> (\<forall>u \<in> set names. unparseable_unit env from u \<longrightarrow> u \<notin> baseTargets_v2 \<longrightarrow>
            u \<notin> set (vertices (depGraph_v2 env repos))
          \<and> (\<forall>a b. (a, b) \<in> set (edges (depGraph_v2 env repos)) \<longrightarrow> a \<noteq> u \<and> b \<noteq> u)
          \<and> (\<forall>order. determineBuildOrder_v2 env repos = Returns order \<longrightarrow>
                count_list order u = 1))"
    unfolding enumerateBuildableRepos_v2_def determineBuildOrder_v2_def depGraph_v2_def
    by (rule built_last_with[OF assms indexBinary_v2_ran vertices_addBase_v2])
      (rule wf_graph_depGraph_with, rule wf_graph_addBase_v2)
qed

lemma example_unparseable:
  "ReadDir (example_env [''a'', ''b'', ''docs'', ''broken'']) ''src''
     = Inr [''a'', ''b'', ''docs'', ''broken'']"
  "filter (unparseable_unit (example_env [''a'', ''b'', ''docs'', ''broken'']) ''src'')
     [''a'', ''b'', ''docs'', ''broken''] = [''broken'']"
  "unparseable_unit (example_env [''a'', ''b'', ''docs'', ''broken'']) ''src'' ''broken''"
  by code_simp+

theorem unparseable_units_once_at_end_witness:
  "ReadDir (example_env [''a'', ''b'', ''docs'', ''broken'']) ''src''
     = Inr [''a'', ''b'', ''docs'', ''broken'']
   \<and> distinct [''a'', ''b'', ''docs'', ''broken'']
   \<and> (\<exists>repos. enumerateBuildableRepos_v1 (example_env [''a'', ''b'', ''docs'', ''broken'']) ''src''
          = Returns repos
        \<and> unparseable repos = [''broken'']
        \<and> ''broken'' \<notin> set (vertices (depGraph_v1
              (example_env [''a'', ''b'', ''docs'', ''broken'']) repos))
        \<and> (\<forall>order. determineBuildOrder_v1 (example_env [''a'', ''b'', ''docs'', ''broken''])
              repos = Returns order \<longrightarrow> count_list order ''broken'' = 1))
   \<and> (\<exists>repos. enumerateBuildableRepos_v2 (example_env [''a'', ''b'', ''docs'', ''broken'']) ''src''
          = Returns repos
        \<and> unparseable repos = [''broken'']
        \<and> ''broken'' \<notin> set (vertices (depGraph_v2
              (example_env [''a'', ''b'', ''docs'', ''broken'']) repos))
        \<and> (\<forall>order. determineBuildOrder_v2 (example_env [''a'', ''b'', ''docs'', ''broken''])
              repos = Returns order \<longrightarrow> count_list order ''broken'' = 1))"
proof -
  have d: "distinct [''a'', ''b'', ''docs'', ''broken'']" by simp
  have t: "''broken'' \<notin> baseTargets_v1" "''broken'' \<notin> baseTargets_v2"
    "''broken'' \<in> set [''a'', ''b'', ''docs'', ''broken'']"
    by (simp_all add: baseTargets_v1_def baseTargets_v2_def)
  note th = unparseable_units_once_at_end[OF example_unparseable(1) d,
      unfolded example_unparseable(2)]
  from th obtain r1 where r1:
      "enumerateBuildableRepos_v1 (example_env [''a'', ''b'', ''docs'', ''broken'']) ''src''
         = Returns r1"
      "unparseable r1 = [''broken'']"
      "\<forall>u \<in> set [''a'', ''b'', ''docs'', ''broken''].
         unparseable_unit (example_env [''a'', ''b'', ''docs'', ''broken'']) ''src'' u \<longrightarrow>
         u \<notin> baseTargets_v1 \<longrightarrow>
            u \<notin> set (vertices (depGraph_v1 (example_env [''a'', ''b'', ''docs'', ''broken'']) r1))
          \<and> (\<forall>a b. (a, b) \<in> set (edges (depGraph_v1
                 (example_env [''a'', ''b'', ''docs'', ''broken'']) r1)) \<longrightarrow> a \<noteq> u \<and> b \<noteq> u)
          \<and> (\<forall>order. determineBuildOrder_v1 (example_env [''a'', ''b'', ''docs'', ''broken''])
                  r1 = Returns order \<longrightarrow> count_list order u = 1)"
    by blast
  from th obtain r2 where r2:
      "enumerateBuildableRepos_v2 (example_env [''a'', ''b'', ''docs'', ''broken'']) ''src''
         = Returns r2"
      "unparseable r2 = [''broken'']"
      "\<forall>u \<in> set [''a'', ''b'', ''docs'', ''broken''].
         unparseable_unit (example_env [''a'', ''b'', ''docs'', ''broken'']) ''src'' u \<longrightarrow>
         u \<notin> baseTargets_v2 \<longrightarrow>
            u \<notin> set (vertices (depGraph_v2 (example_env [''a'', ''b'', ''docs'', ''broken'']) r2))
          \<and> (\<forall>a b. (a, b) \<in> set (edges (depGraph_v2
                 (example_env [''a'', ''b'', ''docs'', ''broken'']) r2)) \<longrightarrow> a \<noteq> u \<and> b \<noteq> u)
          \<and> (\<forall>order. determineBuildOrder_v2 (example_env [''a'', ''b'', ''docs'', ''broken''])
                  r2 = Returns order \<longrightarrow> count_list order u = 1)"
    by blast
  from r1(3) t(1,3) example_unparseable(3)
  have b1: "''broken'' \<notin> set (vertices (depGraph_v1
        (example_env [''a'', ''b'', ''docs'', ''broken'']) r1))
      \<and> (\<forall>order. determineBuildOrder_v1 (example_env [''a'', ''b'', ''docs'', ''broken''])
                  r1 = Returns order \<longrightarrow> count_list order ''broken'' = 1)"
    by blast
  from r2(3) t(2,3) example_unparseable(3)
  have b2: "''broken'' \<notin> set (vertices (depGraph_v2
        (example_env [''a'', ''b'', ''docs'', ''broken'']) r2))
      \<and> (\<forall>order. determineBuildOrder_v2 (example_env [''a'', ''b'', ''docs'', ''broken''])
                  r2 = Returns order \<longrightarrow> count_list order ''broken'' = 1)"
    by blast
  from example_unparseable(1) d r1(1,2) b1 r2(1,2) b2 show ?thesis by blast
qed

lemma example_broken_enumerate_v1:
  "enumerateBuildableRepos_v1 (example_broken_env names) ''src''
     = Returns (example_broken_repos_v1 names)"
  by (simp add: example_broken_repos_v1_def enumerateBuildableRepos_v1_def
      enumerateBuildableRepos_with_def example_broken_env_def example_env_def)

lemma example_broken_enumerate_v2:
  "enumerateBuildableRepos_v2 (example_broken_env names) ''src''
     = Returns (example_broken_repos_v2 names)"
  by (simp add: example_broken_repos_v2_def enumerateBuildableRepos_v2_def
      enumerateBuildableRepos_with_def example_broken_env_def example_env_def)

text \<open>
  Claim C5 as stated fails when the unit \<open>base-files\<close> is the unparseable one: the implicit
  edge of the unit \<open>a\<close> makes \<open>base-files\<close> a vertex of the graph, and the final order
  has it twice, first and last.
\<close>

theorem unparseable_base_files_built_twice:
  "ReadDir (example_broken_env [''a'', ''base-files'']) ''src'' = Inr [''a'', ''base-files'']
   \<and> unparseable_unit (example_broken_env [''a'', ''base-files'']) ''src'' ''base-files''
   \<and> enumerateBuildableRepos_v1 (example_broken_env [''a'', ''base-files'']) ''src''
       = Returns (example_broken_repos_v1 [''a'', ''base-files''])
   \<and> unparseable (example_broken_repos_v1 [''a'', ''base-files'']) = [''base-files'']
   \<and> vertices (depGraph_v1 (example_broken_env [''a'', ''base-files''])
         (example_broken_repos_v1 [''a'', ''base-files''])) = [''a'', ''base-files'']
   \<and> edges (depGraph_v1 (example_broken_env [''a'', ''base-files''])
         (example_broken_repos_v1 [''a'', ''base-files''])) = [(''a'', ''base-files'')]
   \<and> determineBuildOrder_v1 (example_broken_env [''a'', ''base-files''])
         (example_broken_repos_v1 [''a'', ''base-files''])
       = Returns [''base-files'', ''a'', ''base-files'']
   \<and> count_list [''base-files'', ''a'', ''base-files''] ''base-files'' = 2
   \<and> enumerateBuildableRepos_v2 (example_broken_env [''a'', ''base-files'']) ''src''
       = Returns (example_broken_repos_v2 [''a'', ''base-files''])
   \<and> unparseable (example_broken_repos_v2 [''a'', ''base-files'']) = [''base-files'']
   \<and> determineBuildOrder_v2 (example_broken_env [''a'', ''base-files''])
         (example_broken_repos_v2 [''a'', ''base-files''])
       = Returns [''base-files'', ''lintian-profile-vyatta'', ''linux-vyatta'', ''a'',
           ''base-files'']"
  by (intro conjI example_broken_enumerate_v1 example_broken_enumerate_v2; code_simp)

lemma set_edges_addBase_v1:
  "set (edges (addBase_v1 repo g)) = insert (repo, ''base-files'') (set (edges g))"
  by (simp add: addBase_v1_def set_edges_AddEdge)

lemma set_edges_addBase_v2:
  "set (edges (addBase_v2 repo g)) = set (edges g) \<union>
     (if repo = ''base-files'' \<or> repo = ''lintian-profile-vyatta'' then {}
      else {(repo, ''base-files''), (repo, ''lintian-profile-vyatta'')}
           \<union> (if repo = ''linux-vyatta'' then {} else {(repo, ''linux-vyatta'')}))"
  by (auto simp: addBase_v2_def Let_def set_edges_AddEdge)

lemma addBase_v2_no_self_edge:
  "(repo, repo) \<in> set (edges (addBase_v2 repo g)) \<Longrightarrow> (repo, repo) \<in> set (edges g)"
  by (auto simp: set_edges_addBase_v2 split: if_splits)

text \<open>
  Claim C3, at an input where \<open>src/main.go\<close> departs from it: a corpus whose one unit
  is \<open>base-files\<close>, with metadata that parses. \<open>src/main.go\<close> adds the implicit edge
  without a guard, so the unit gets an edge to itself and the sort reports a cycle. The
  second variant guards the edge (\<open>set_edges_addBase_v2\<close>, \<open>addBase_v2_no_self_edge\<close>)
  and returns the order.
\<close>

theorem addBase_v1_self_edge:
  "enumerateBuildableRepos_v1 (example_env [''base-files'']) ''src''
     = Returns (example_repos_v1 [''base-files''])
   \<and> fst ` set (ctrlFiles (example_repos_v1 [''base-files''])) = {''base-files''}
   \<and> edges (addBase_v1 ''base-files'' (AddVertex ''base-files'' New))
       = [(''base-files'', ''base-files'')]
   \<and> edges (depGraph_v1 (example_env [''base-files'']) (example_repos_v1 [''base-files'']))
       = [(''base-files'', ''base-files'')]
   \<and> determineBuildOrder_v1 (example_env [''base-files'']) (example_repos_v1 [''base-files''])
       = Panics ErrCycle
   \<and> edges (depGraph_v2 (example_env [''base-files'']) (example_repos_v2 [''base-files''])) = []
   \<and> determineBuildOrder_v2 (example_env [''base-files'']) (example_repos_v2 [''base-files''])
       = Returns [''base-files'']"
  by (intro conjI example_enumerate_v1; code_simp)

text \<open>
  Claim C4, at an input where \<open>src/main.go\<close> departs from it: unit \<open>a\<close> requires
  \<open>libb-dev\<close>, which unit \<open>b\<close> only provides through a \<open>Provides\<close> declaration of its
  second package, the declaration of its first package being unparseable.
  \<open>src/main.go\<close> indexes package names only: \<open>libb-dev\<close> is not in its index, no edge
  from \<open>a\<close> to \<open>b\<close> is made and \<open>a\<close> is ordered before \<open>b\<close>. The second variant
  indexes the alias, skips the unparseable declaration only, makes the edge and orders
  \<open>b\<close> before \<open>a\<close>; for it the claim is proved in general in the last section.
\<close>

theorem indexBinary_v1_ignores_provides:
  "enumerateBuildableRepos_v1 (example_env [''a'', ''b'']) ''src''
     = Returns (example_repos_v1 [''a'', ''b''])
   \<and> pack2repo (example_repos_v1 [''a'', ''b'']) ''libb-dev'' = None
   \<and> edges (depGraph_v1 (example_env [''a'', ''b'']) (example_repos_v1 [''a'', ''b'']))
       = [(''a'', ''base-files''), (''b'', ''base-files'')]
   \<and> determineBuildOrder_v1 (example_env [''a'', ''b'']) (example_repos_v1 [''a'', ''b''])
       = Returns [''base-files'', ''a'', ''b'']
   \<and> pack2repo (example_repos_v2 [''a'', ''b'']) ''libb-dev'' = Some ''b''
   \<and> pack2repo (example_repos_v2 [''a'', ''b'']) ''b-doc'' = Some ''b''
   \<and> pack2repo (example_repos_v2 [''a'', ''b'']) ''b'' = Some ''b''
   \<and> edges (depGraph_v2 (example_env [''a'', ''b'']) (example_repos_v2 [''a'', ''b'']))
       = [(''a'', ''base-files''), (''a'', ''lintian-profile-vyatta''), (''a'', ''linux-vyatta''),
          (''a'', ''b''), (''b'', ''base-files''), (''b'', ''lintian-profile-vyatta''),
          (''b'', ''linux-vyatta'')]
   \<and> determineBuildOrder_v2 (example_env [''a'', ''b'']) (example_repos_v2 [''a'', ''b''])
       = Returns [''base-files'', ''lintian-profile-vyatta'', ''linux-vyatta'', ''b'', ''a'']"
  by (intro conjI example_enumerate_v1; code_simp)

section \<open>The graph and the index, exactly\<close>

text \<open>
  The edges of the dependency graph are the implicit edges and the declared edges of the
  units of \<open>ctrlFiles\<close>, and its vertices are those units and the ends of its edges.
  So the graph, as a set of vertices and a set of edges, and with it the sorted order,
  do not depend on the order in which the program ranges over the map \<open>ctrlFiles\<close>
  (\<open>determineBuildOrder_iteration_order\<close>). The index of the second variant holds every
  declared name of every package of every parseable unit (\<open>provides_indexed_v2\<close>), and a
  requirement that only one unit declares, be it through \<open>Provides\<close>, gives an edge to
  that unit (\<open>provides_alias_edge_v2\<close>).
\<close>

lemma set_edges_addPossibility:
  "set (edges (addPossibility env repos repo g pos)) =
     set (edges g) \<union> (case pack2repo repos (TrimSpace env (Name pos)) of
                        None \<Rightarrow> {} | Some drepo \<Rightarrow> {(repo, drepo)})"
  by (simp add: addPossibility_def Let_def set_edges_AddEdge split: option.splits)

lemma set_edges_foldl_addPossibility:
  "set (edges (foldl (addPossibility env repos repo) g ps)) =
     set (edges g) \<union> {(repo, drepo) | drepo.
        \<exists>pos \<in> set ps. pack2repo repos (TrimSpace env (Name pos)) = Some drepo}"
proof (induction ps arbitrary: g)
  case Nil
  then show ?case by simp
next
  case (Cons p ps)
  show ?case
    unfolding foldl.simps Cons.IH set_edges_addPossibility
    by (auto split: option.splits)
qed

lemma set_edges_addRelations:
  "set (edges (addRelations env repos repo ctrl g)) =
     set (edges g) \<union> declaredEdges env repos repo ctrl"
proof -
  have "set (edges (foldl (\<lambda>g rel. foldl (addPossibility env repos repo) g (Possibilities rel))
            g rels)) =
     set (edges g) \<union> {(repo, drepo) | drepo.
        \<exists>rel \<in> set rels. \<exists>pos \<in> set (Possibilities rel).
            pack2repo repos (TrimSpace env (Name pos)) = Some drepo}" for rels
  proof (induction rels arbitrary: g)
    case Nil
    then show ?case by simp
  next
    case (Cons r rels)
    show ?case
      unfolding foldl.simps Cons.IH set_edges_foldl_addPossibility
      by auto
  qed
  then show ?thesis by (simp add: addRelations_def declaredEdges_def)
qed

lemma set_edges_depGraph_with:
  assumes "\<And>repo g. set (edges (addBase repo g)) = set (edges g) \<union> B repo"
  shows "set (edges (depGraph_with addBase env repos)) =
     (\<Union>rc \<in> set (ctrlFiles repos). B (fst rc) \<union> declaredEdges env repos (fst rc) (snd rc))"
proof -
  have "set (edges (foldl (addRepo addBase env repos) g rcs)) =
      set (edges g) \<union> (\<Union>rc \<in> set rcs. B (fst rc) \<union> declaredEdges env repos (fst rc) (snd rc))"
    for g rcs
  proof (induction rcs arbitrary: g)
    case Nil
    then show ?case by simp
  next
    case (Cons rc rcs)
    have "set (edges (addRepo addBase env repos g rc)) =
        set (edges g) \<union> (B (fst rc) \<union> declaredEdges env repos (fst rc) (snd rc))"
      by (cases rc) (simp add: addRepo_def set_edges_addRelations assms edges_AddVertex Un_assoc)
    then show ?case
      unfolding foldl.simps Cons.IH by auto
  qed
  then show ?thesis by (simp add: depGraph_with_def New_def)
qed

lemma vertices_AddEdge_ends:
  "set (vertices g) = K \<union> fst ` set (edges g) \<union> snd ` set (edges g) \<Longrightarrow>
   set (vertices (AddEdge u d g)) = K \<union> fst ` set (edges (AddEdge u d g))
       \<union> snd ` set (edges (AddEdge u d g))"
  by (auto simp: vertices_AddEdge set_edges_AddEdge)

lemma ends_AddVertex:
  "set (vertices g) = K \<union> fst ` set (edges g) \<union> snd ` set (edges g) \<Longrightarrow>
   set (vertices (AddVertex v g)) = insert v K \<union> fst ` set (edges (AddVertex v g))
       \<union> snd ` set (edges (AddVertex v g))"
  by (auto simp: vertices_AddVertex edges_AddVertex)

lemma ends_addPossibility:
  "set (vertices g) = K \<union> fst ` set (edges g) \<union> snd ` set (edges g) \<Longrightarrow>
   set (vertices (addPossibility env repos repo g pos)) =
     K \<union> fst ` set (edges (addPossibility env repos repo g pos))
       \<union> snd ` set (edges (addPossibility env repos repo g pos))"
  by (simp add: addPossibility_def Let_def vertices_AddEdge_ends split: option.splits)

lemma ends_foldl:
  assumes "\<And>g x. P g \<Longrightarrow> P (f g x)"
  shows "P g \<Longrightarrow> P (foldl f g xs)"
  by (induction xs arbitrary: g) (auto simp: assms)

lemma ends_addRelations:
  assumes "set (vertices g) = K \<union> fst ` set (edges g) \<union> snd ` set (edges g)"
  shows "set (vertices (addRelations env repos repo ctrl g)) =
     K \<union> fst ` set (edges (addRelations env repos repo ctrl g))
       \<union> snd ` set (edges (addRelations env repos repo ctrl g))"
  unfolding addRelations_def
proof (rule ends_foldl[where P = "\<lambda>g :: Graph. set (vertices g) =
      K \<union> fst ` set (edges g) \<union> snd ` set (edges g)", OF _ assms])
  fix g :: Graph and x :: Relation
  assume "set (vertices g) = K \<union> fst ` set (edges g) \<union> snd ` set (edges g)"
  then show "set (vertices (foldl (addPossibility env repos repo) g (Possibilities x))) =
      K \<union> fst ` set (edges (foldl (addPossibility env repos repo) g (Possibilities x)))
        \<union> snd ` set (edges (foldl (addPossibility env repos repo) g (Possibilities x)))"
    by (rule ends_foldl[where P = "\<lambda>g :: Graph. set (vertices g) =
      K \<union> fst ` set (edges g) \<union> snd ` set (edges g)", rotated]) (rule ends_addPossibility)
qed

lemma ends_addBase_v1:
  "set (vertices g) = K \<union> fst ` set (edges g) \<union> snd ` set (edges g) \<Longrightarrow>
   set (vertices (addBase_v1 repo g)) = K \<union> fst ` set (edges (addBase_v1 repo g))
       \<union> snd ` set (edges (addBase_v1 repo g))"
  by (simp add: addBase_v1_def vertices_AddEdge_ends)

lemma ends_addBase_v2:
  "set (vertices g) = K \<union> fst ` set (edges g) \<union> snd ` set (edges g) \<Longrightarrow>
   set (vertices (addBase_v2 repo g)) = K \<union> fst ` set (edges (addBase_v2 repo g))
       \<union> snd ` set (edges (addBase_v2 repo g))"
  by (simp add: addBase_v2_def Let_def vertices_AddEdge_ends)

lemma set_vertices_depGraph_with:
  assumes "\<And>repo g K. set (vertices g) = K \<union> fst ` set (edges g) \<union> snd ` set (edges g) \<Longrightarrow>
      set (vertices (addBase repo g)) = K \<union> fst ` set (edges (addBase repo g))
        \<union> snd ` set (edges (addBase repo g))"
  shows "set (vertices (depGraph_with addBase env repos)) =
     fst ` set (ctrlFiles repos) \<union> fst ` set (edges (depGraph_with addBase env repos))
       \<union> snd ` set (edges (depGraph_with addBase env repos))"
proof -
  have "set (vertices (foldl (addRepo addBase env repos) g rcs)) =
      (K \<union> fst ` set rcs) \<union> fst ` set (edges (foldl (addRepo addBase env repos) g rcs))
        \<union> snd ` set (edges (foldl (addRepo addBase env repos) g rcs))"
    if "set (vertices g) = K \<union> fst ` set (edges g) \<union> snd ` set (edges g)" for g K rcs
    using that
  proof (induction rcs arbitrary: g K)
    case Nil
    then show ?case by simp
  next
    case (Cons rc rcs)
    obtain repo ctrl where rc: "rc = (repo, ctrl)" by (cases rc)
    have "set (vertices (addRepo addBase env repos g rc)) =
        insert repo K \<union> fst ` set (edges (addRepo addBase env repos g rc))
          \<union> snd ` set (edges (addRepo addBase env repos g rc))"
      unfolding rc addRepo_def prod.case
      by (intro ends_addRelations assms ends_AddVertex Cons.prems)
    from Cons.IH[OF this] show ?case by (simp add: rc)
  qed
  from this[of New "{}" "ctrlFiles repos"] show ?thesis
    by (simp add: depGraph_with_def New_def)
qed

lemma ready_cong: "set E = set E' \<Longrightarrow> ready E placed v = ready E' placed v"
  by (simp add: ready_iff)

lemma sort_loop_cong:
  "set E = set E' \<Longrightarrow> sort_loop E rem placed = sort_loop E' rem placed"
proof (induction E rem placed rule: sort_loop.induct)
  case (1 E rem placed)
  have r: "ready E placed = ready E' placed"
    using ready_cong[OF "1.prems"] by blast
  show ?case
  proof (cases "rem = []")
    case True
    then show ?thesis by simp
  next
    case False
    show ?thesis
    proof (cases "find (ready E placed) rem")
      case None
      with False r show ?thesis by simp
    next
      case (Some v)
      from "1.IH"[OF False Some "1.prems"] False Some r show ?thesis
        by (simp del: sort_loop.simps add: sort_loop.simps[of E rem] sort_loop.simps[of E' rem])
    qed
  qed
qed

lemma Sort_cong:
  assumes "distinct (vertices g)" "distinct (vertices g')"
    and "set (vertices g) = set (vertices g')" and "set (edges g) = set (edges g')"
  shows "Sort g = Sort g'"
proof -
  have "sort (vertices g) = sort (vertices g')"
    using assms(1-3) by (intro sorted_distinct_set_unique) simp_all
  with sort_loop_cong[OF assms(4)] show ?thesis by (simp add: Sort_def)
qed

lemma declaredEdges_cong:
  "pack2repo repos = pack2repo repos' \<Longrightarrow>
   declaredEdges env repos repo ctrl = declaredEdges env repos' repo ctrl"
  by (simp add: declaredEdges_def)

lemma depGraph_with_iteration_order:
  assumes b: "\<And>repo g. set (edges (addBase repo g)) = set (edges g) \<union> B repo"
    and e: "\<And>repo g K. set (vertices g) = K \<union> fst ` set (edges g) \<union> snd ` set (edges g) \<Longrightarrow>
      set (vertices (addBase repo g)) = K \<union> fst ` set (edges (addBase repo g))
        \<union> snd ` set (edges (addBase repo g))"
    and w: "\<And>repos. wf_graph (depGraph_with addBase env repos)"
    and c: "set (ctrlFiles repos) = set (ctrlFiles repos')"
    and p: "pack2repo repos = pack2repo repos'"
    and u: "unparseable repos = unparseable repos'"
  shows "determineBuildOrder_with addBase env repos = determineBuildOrder_with addBase env repos'"
proof -
  have es: "set (edges (depGraph_with addBase env repos))
      = set (edges (depGraph_with addBase env repos'))"
    unfolding set_edges_depGraph_with[of addBase B, OF b] c
    by (simp add: declaredEdges_cong[OF p])
  have vs: "set (vertices (depGraph_with addBase env repos))
      = set (vertices (depGraph_with addBase env repos'))"
    using set_vertices_depGraph_with[of addBase env repos, OF e]
      set_vertices_depGraph_with[of addBase env repos', OF e] es c
    by simp
  have "Sort (depGraph_with addBase env repos) = Sort (depGraph_with addBase env repos')"
    using w[of repos] w[of repos'] vs es by (intro Sort_cong) (simp_all add: wf_graph_def)
  then show ?thesis unfolding determineBuildOrder_with_def u by simp
qed

lemma determineBuildOrder_iteration_order:
  assumes "set (ctrlFiles repos) = set (ctrlFiles repos')"
    and "pack2repo repos = pack2repo repos'"
    and "unparseable repos = unparseable repos'"
  shows "determineBuildOrder_v1 env repos = determineBuildOrder_v1 env repos'"
    and "determineBuildOrder_v2 env repos = determineBuildOrder_v2 env repos'"
proof -
  show "determineBuildOrder_v1 env repos = determineBuildOrder_v1 env repos'"
    unfolding determineBuildOrder_v1_def
    by (rule depGraph_with_iteration_order[where B = "\<lambda>repo. {(repo, ''base-files'')}", OF _ _ _ assms])
      (simp_all add: set_edges_addBase_v1 ends_addBase_v1 wf_graph_depGraph_with
        wf_graph_addBase_v1)
  show "determineBuildOrder_v2 env repos = determineBuildOrder_v2 env repos'"
    unfolding determineBuildOrder_v2_def
    by (rule depGraph_with_iteration_order[where B = "\<lambda>repo.
          (if repo = ''base-files'' \<or> repo = ''lintian-profile-vyatta'' then {}
           else {(repo, ''base-files''), (repo, ''lintian-profile-vyatta'')}
             \<union> (if repo = ''linux-vyatta'' then {} else {(repo, ''linux-vyatta'')}))",
          OF _ _ _ assms])
      (simp_all add: set_edges_addBase_v2 ends_addBase_v2 wf_graph_depGraph_with
        wf_graph_addBase_v2)
qed

lemma foldl_upd_apply:
  "foldl (\<lambda>m x. m(k x \<mapsto> v)) m xs a = (if a \<in> k ` set xs then Some v else m a)"
  by (induction xs arbitrary: m) auto

lemma indexBinary_v1_apply:
  "indexBinary_v1 env repo m bin a =
     (if a = TrimSpace env (Package bin) then Some repo else m a)"
  by (simp add: indexBinary_v1_def Let_def)

lemma indexBinary_v2_apply:
  "indexBinary_v2 env repo m bin a = (if a \<in> declaredNames env bin then Some repo else m a)"
  by (auto simp: indexBinary_v2_def declaredNames_def Let_def foldl_upd_apply
      split: option.splits sum.splits)

lemma foldl_indexBinary_v2_apply:
  "foldl (indexBinary_v2 env repo) m bins a =
     (if a \<in> (\<Union>bin \<in> set bins. declaredNames env bin) then Some repo else m a)"
  by (induction bins arbitrary: m) (auto simp: indexBinary_v2_apply)

lemma foldl_indexBinary_v1_apply:
  "foldl (indexBinary_v1 env repo) m bins a =
     (if a \<in> (\<lambda>bin. TrimSpace env (Package bin)) ` set bins then Some repo else m a)"
  by (induction bins arbitrary: m) (auto simp: indexBinary_v1_apply)

lemma enumerateRepo_controlOf:
  "enumerateRepo ib env from out repo =
     (case controlOf env from repo of
        Some ctrl \<Rightarrow> out\<lparr>ctrlFiles := AList.update repo ctrl (ctrlFiles out),
                         pack2repo := foldl (ib env repo) (pack2repo out) (Binaries ctrl)\<rparr>
      | None \<Rightarrow> if unparseable_unit env from repo
                then out\<lparr>unparseable := unparseable out @ [repo]\<rparr> else out)"
  by (auto simp: enumerateRepo_def controlOf_def unparseable_unit_def Let_def split: sum.splits)

lemma enumerate_ctrlFiles:
  "controlOf env from A = Some ctrlA \<Longrightarrow>
   A \<in> set names \<or> map_of (ctrlFiles out) A = Some ctrlA \<Longrightarrow>
   map_of (ctrlFiles (foldl (enumerateRepo ib env from) out names)) A = Some ctrlA"
proof (induction names arbitrary: out)
  case Nil
  then show ?case by simp
next
  case (Cons n names)
  have "A \<in> set names \<or> map_of (ctrlFiles (enumerateRepo ib env from out n)) A = Some ctrlA"
    using Cons.prems
    by (auto simp: enumerateRepo_controlOf update_conv' split: option.splits)
  from Cons.IH[OF Cons.prems(1) this] show ?case by simp
qed

lemma enumerate_v2_owner:
  "pack2repo (foldl (enumerateRepo indexBinary_v2 env from) out names) a = Some r \<Longrightarrow>
   pack2repo out a = Some r
   \<or> (r \<in> set names \<and> (\<exists>ctrl. controlOf env from r = Some ctrl
         \<and> (\<exists>bin \<in> set (Binaries ctrl). a \<in> declaredNames env bin)))"
proof (induction names arbitrary: out)
  case Nil
  then show ?case by simp
next
  case (Cons n names)
  from Cons.IH[of "enumerateRepo indexBinary_v2 env from out n"] Cons.prems
  have "pack2repo (enumerateRepo indexBinary_v2 env from out n) a = Some r
   \<or> (r \<in> set names \<and> (\<exists>ctrl. controlOf env from r = Some ctrl
         \<and> (\<exists>bin \<in> set (Binaries ctrl). a \<in> declaredNames env bin)))"
    by simp
  then show ?case
    by (auto simp: enumerateRepo_controlOf foldl_indexBinary_v2_apply
        split: option.splits if_splits)
qed

lemma enumerate_v2_indexed:
  "n \<in> set names \<Longrightarrow> controlOf env from n = Some ctrl \<Longrightarrow> bin \<in> set (Binaries ctrl) \<Longrightarrow>
   a \<in> declaredNames env bin \<Longrightarrow>
   a \<in> dom (pack2repo (foldl (enumerateRepo indexBinary_v2 env from) out names))"
proof (induction names arbitrary: out)
  case Nil
  then show ?case by simp
next
  case (Cons m names)
  have mono: "a \<in> dom (pack2repo out') \<Longrightarrow>
      a \<in> dom (pack2repo (foldl (enumerateRepo indexBinary_v2 env from) out' ns))" for out' ns
  proof (induction ns arbitrary: out')
    case Nil
    then show ?case by simp
  next
    case (Cons x xs)
    have "a \<in> dom (pack2repo (enumerateRepo indexBinary_v2 env from out' x))"
      using Cons.prems
      by (auto simp: enumerateRepo_controlOf foldl_indexBinary_v2_apply split: option.splits)
    from Cons.IH[OF this] show ?case by simp
  qed
  show ?case
  proof (cases "n = m")
    case True
    have "a \<in> dom (pack2repo (enumerateRepo indexBinary_v2 env from out m))"
      using Cons.prems(2-4) True
      by (auto simp: enumerateRepo_controlOf foldl_indexBinary_v2_apply)
    from mono[OF this] show ?thesis by simp
  next
    case False
    with Cons.prems(1) have "n \<in> set names" by simp
    from Cons.IH[OF this Cons.prems(2-4)] show ?thesis by simp
  qed
qed

lemma provides_indexed_v2:
  assumes "ReadDir env from = Inr names" and "repo \<in> set names"
    and "controlOf env from repo = Some ctrl" and "bin \<in> set (Binaries ctrl)"
  shows "\<exists>repos. enumerateBuildableRepos_v2 env from = Returns repos
      \<and> declaredNames env bin \<subseteq> dom (pack2repo repos)"
  using assms enumerate_v2_indexed[OF assms(2-4)]
  by (auto simp: enumerateBuildableRepos_v2_def enumerateBuildableRepos_with_def)

lemma provides_alias_edge_v2:
  assumes rd: "ReadDir env from = Inr names"
    and a: "A \<in> set names" "controlOf env from A = Some ctrlA"
    and b: "B \<in> set names" "controlOf env from B = Some ctrlB"
    and req: "rel \<in> set (Relations (BuildDepends (Source ctrlA)))" "pos \<in> set (Possibilities rel)"
    and prov: "bin \<in> set (Binaries ctrlB)" "TrimSpace env (Name pos) \<in> declaredNames env bin"
    and sole: "\<forall>n \<in> set names. \<forall>ctrl. controlOf env from n = Some ctrl \<longrightarrow>
        (\<exists>bin \<in> set (Binaries ctrl). TrimSpace env (Name pos) \<in> declaredNames env bin) \<longrightarrow> n = B"
  shows "\<exists>repos. enumerateBuildableRepos_v2 env from = Returns repos
      \<and> pack2repo repos (TrimSpace env (Name pos)) = Some B
      \<and> (A, B) \<in> set (edges (depGraph_v2 env repos))"
proof -
  define repos where "repos = foldl (enumerateRepo indexBinary_v2 env from)
      \<lparr>ctrlFiles = [], pack2repo = Map.empty, unparseable = []\<rparr> names"
  have e: "enumerateBuildableRepos_v2 env from = Returns repos"
    by (simp add: enumerateBuildableRepos_v2_def enumerateBuildableRepos_with_def rd repos_def)
  have "TrimSpace env (Name pos) \<in> dom (pack2repo repos)"
    unfolding repos_def by (rule enumerate_v2_indexed[OF b prov])
  then obtain r where r: "pack2repo repos (TrimSpace env (Name pos)) = Some r" by blast
  from enumerate_v2_owner[OF r[unfolded repos_def]] sole have "r = B" by auto
  with r have p: "pack2repo repos (TrimSpace env (Name pos)) = Some B" by simp
  have "map_of (ctrlFiles repos) A = Some ctrlA"
    unfolding repos_def using a by (intro enumerate_ctrlFiles) simp_all
  then have m: "(A, ctrlA) \<in> set (ctrlFiles repos)" by (rule map_of_SomeD)
  have "(A, B) \<in> declaredEdges env repos A ctrlA"
    using req p by (auto simp: declaredEdges_def)
  with m have "(A, B) \<in> set (edges (depGraph_v2 env repos))"
    unfolding depGraph_v2_def
      set_edges_depGraph_with[of addBase_v2 _ env repos, OF set_edges_addBase_v2]
    by force
  with e p show ?thesis by blast
qed

end
